theory Spec2Isabelle
  imports Complex_Main "HOL-Library.Multiset"
begin

section \<open>JavaScript values used by the Orders panel\<close>

text \<open>
  The development follows \<^verbatim>\<open>src/pages/SellerDashboard.tsx\<close>, component
  \<^verbatim>\<open>OrdersTab\<close>.

  Strings are sequences of code units; the model covers code units below 256
  (\<^typ>\<open>string\<close>). A JavaScript number is \<open>NaN\<close> or a finite value. Where the
  code only ever holds a whole value (a time value in milliseconds, a count) the
  value is an \<^typ>\<open>int\<close>; where it can have a fraction (an amount, a rate) it is
  a \<^typ>\<open>rat\<close>: every finite double is a rational. Infinite numbers, which JSON
  cannot carry, are outside the model.
\<close>

datatype 'a js_number = NaN | Num 'a

type_synonym number = "int js_number"

type_synonym fractional = "rat js_number"

text \<open>A whole value read where a value with a fraction is expected.\<close>

fun whole :: "number \<Rightarrow> fractional" where
  "whole NaN = NaN"
| "whole (Num i) = Num (of_int i)"

text \<open>
  \<^verbatim>\<open>a - b\<close>: \<open>NaN\<close> as soon as one operand is. On doubles the difference is
  rounded; its sign, which is all that \<^verbatim>\<open>sort\<close> reads of it, is the sign of
  the exact difference.
\<close>

fun num_sub :: "('a::minus) js_number \<Rightarrow> 'a js_number \<Rightarrow> 'a js_number" where
  "num_sub (Num a) (Num b) = Num (a - b)"
| "num_sub _ _ = NaN"

text \<open>\<^verbatim>\<open>Math.floor(x / d)\<close> for a positive whole divisor \<open>d\<close>.\<close>

fun Math_floor_div :: "number \<Rightarrow> int \<Rightarrow> number" where
  "Math_floor_div (Num a) d = Num (a div d)"
| "Math_floor_div NaN d = NaN"

text \<open>\<^verbatim>\<open>x < c\<close>: every comparison with \<open>NaN\<close> is false.\<close>

fun num_lt :: "number \<Rightarrow> int \<Rightarrow> bool" where
  "num_lt (Num a) c = (a < c)"
| "num_lt NaN c = False"

text \<open>\<^verbatim>\<open>!x\<close> on a number: zero and \<open>NaN\<close> are falsy.\<close>

fun num_falsy :: "('a::zero) js_number \<Rightarrow> bool" where
  "num_falsy NaN = True"
| "num_falsy (Num a) = (a = 0)"

definition digit_char :: "nat \<Rightarrow> char" where
  "digit_char d = ''0123456789'' ! d"

fun show_nat :: "nat \<Rightarrow> string" where
  "show_nat n = (if n < 10 then [digit_char n] else show_nat (n div 10) @ [digit_char (n mod 10)])"

declare show_nat.simps [simp del]

text \<open>The value that a string of decimal digits stands for.\<close>

definition digit_value :: "char \<Rightarrow> nat" where
  "digit_value c = of_char c - 48"

definition read_nat :: "string \<Rightarrow> nat" where
  "read_nat ds = foldl (\<lambda>v c. 10 * v + digit_value c) 0 ds"

text \<open>The string a template literal \<^verbatim>\<open>${x}\<close> gives for a whole number.\<close>

fun Number_toString :: "number \<Rightarrow> string" where
  "Number_toString NaN = ''NaN''"
| "Number_toString (Num i) = (if i < 0 then ''-'' @ show_nat (nat (- i)) else show_nat (nat i))"

text \<open>
  \<^verbatim>\<open>x.toLocaleString('en-KE', { maximumFractionDigits: 0 })\<close>: the value is
  rounded to a whole number, a half away from zero (the rounding mode
  \<^verbatim>\<open>halfExpand\<close> that the formatter has when none is given), and written as its
  decimal digits with a comma between groups of three counted from the right,
  after a minus sign when the value is negative. \<open>group3\<close> works on the
  reversed digit string.
\<close>

fun group3 :: "string \<Rightarrow> string" where
  "group3 (a # b # c # d # ds) = a # b # c # CHR '','' # group3 (d # ds)"
| "group3 ds = ds"

definition grouped :: "string \<Rightarrow> string" where
  "grouped ds = rev (group3 (rev ds))"

definition round_half_expand :: "rat \<Rightarrow> nat" where
  "round_half_expand x = nat \<lfloor>\<bar>x\<bar> + 1 / 2\<rfloor>"

fun toLocaleString :: "fractional \<Rightarrow> string" where
  "toLocaleString NaN = ''NaN''"
| "toLocaleString (Num x) =
     (if x < 0 then ''-'' @ grouped (show_nat (round_half_expand x))
      else grouped (show_nat (round_half_expand x)))"

section \<open>Presentation helpers\<close>

text \<open>
  \<^verbatim>\<open>
  const formatCurrency = (amount: number) => {
    if (!amount) return 'KES 0';
    return `KES ${amount.toLocaleString('en-KE', { maximumFractionDigits: 0 })}`;
  };
  \<close>
\<close>

definition formatCurrency :: "fractional \<Rightarrow> string" where
  "formatCurrency amount =
     (if num_falsy amount then ''KES 0'' else ''KES '' @ toLocaleString amount)"

text \<open>
  \<^verbatim>\<open>formatTime\<close> reads the clock (\<^verbatim>\<open>new Date()\<close>); the model takes the clock's
  millisecond value as the argument \<open>now\<close>. Date parsing and locale formatting
  belong to the platform and are parameters: \<open>getTime s\<close> is
  \<^verbatim>\<open>new Date(s).getTime()\<close> (\<open>NaN\<close> for a string that is no date) and
  \<open>toLocaleDateString s\<close> is \<^verbatim>\<open>new Date(s).toLocaleDateString('en-KE')\<close>.
\<close>

definition formatTime :: "(string \<Rightarrow> number) \<Rightarrow> (string \<Rightarrow> string) \<Rightarrow> int \<Rightarrow> string \<Rightarrow> string" where
  "formatTime getTime toLocaleDateString now dateString =
     (if dateString = [] then ''unknown''
      else
        let diffMs = num_sub (Num now) (getTime dateString);
            diffSecs = Math_floor_div diffMs 1000;
            diffMins = Math_floor_div diffSecs 60;
            diffHours = Math_floor_div diffMins 60;
            diffDays = Math_floor_div diffHours 24
        in if num_lt diffSecs 60 then ''just now''
           else if num_lt diffMins 60 then Number_toString diffMins @ ''m ago''
           else if num_lt diffHours 24 then Number_toString diffHours @ ''h ago''
           else if diffDays = Num 1 then ''yesterday''
           else if num_lt diffDays 7 then Number_toString diffDays @ ''d ago''
           else toLocaleDateString dateString)"

section \<open>String operations\<close>

text \<open>
  \<^verbatim>\<open>String.prototype.trim\<close> removes white space and line terminators from both
  ends. Below code unit 256 these are TAB, LF, VT, FF, CR, SPACE and NBSP.
\<close>

definition is_space :: "char \<Rightarrow> bool" where
  "is_space c = ((of_char c :: nat) \<in> {9, 10, 11, 12, 13, 32, 160})"

definition trim :: "string \<Rightarrow> string" where
  "trim s = rev (dropWhile is_space (rev (dropWhile is_space s)))"

text \<open>
  \<^verbatim>\<open>String.prototype.toLowerCase\<close>: below code unit 256 the letters with a lower
  case are A to Z and the Latin-1 capitals U+00C0 to U+00DE without U+00D7, each
  32 below its lower case.
\<close>

definition lower_char :: "char \<Rightarrow> char" where
  "lower_char c =
     (let n = (of_char c :: nat)
      in if (65 \<le> n \<and> n \<le> 90) \<or> (192 \<le> n \<and> n \<le> 222 \<and> n \<noteq> 215) then char_of (n + 32) else c)"

definition toLowerCase :: "string \<Rightarrow> string" where
  "toLowerCase s = map lower_char s"

fun starts_with :: "string \<Rightarrow> string \<Rightarrow> bool" where
  "starts_with s [] = True"
| "starts_with [] (q # qs) = False"
| "starts_with (c # cs) (q # qs) = (c = q \<and> starts_with cs qs)"

text \<open>\<^verbatim>\<open>s.includes(q)\<close>: \<open>q\<close> occurs in \<open>s\<close> as a contiguous run.\<close>

fun String_includes :: "string \<Rightarrow> string \<Rightarrow> bool" where
  "String_includes [] q = (q = [])"
| "String_includes (c # cs) q = (starts_with (c # cs) q \<or> String_includes cs q)"

section \<open>Data model\<close>

record OrderShipping =
  ship_courierName :: string
  ship_trackingNumber :: string
  ship_estimatedDeliveryDate :: string
  ship_notes :: "string option"
  ship_proofImages :: "string list option"

record TimelineEvent =
  title :: string
  completed :: bool
  completedAt :: "string option"

datatype status = Pending | Accepted | Shipped | Completed | Dispute | Cancelled

text \<open>The string literal each member of the union type \<^verbatim>\<open>Order['status']\<close> is.\<close>

fun status_str :: "status \<Rightarrow> string" where
  "status_str Pending = ''pending''"
| "status_str Accepted = ''accepted''"
| "status_str Shipped = ''shipped''"
| "status_str Completed = ''completed''"
| "status_str Dispute = ''dispute''"
| "status_str Cancelled = ''cancelled''"

text \<open>Field \<^verbatim>\<open>id\<close> of the source is \<open>order_id\<close> here.\<close>

record Order =
  order_id :: string
  buyerName :: string
  buyerPhone :: string
  buyerLocation :: string
  buyerMemberSince :: "string option"
  buyerRating :: "fractional option"
  buyerPurchases :: "number option"
  itemName :: string
  quantity :: number
  amount :: fractional
  status :: status
  createdAt :: string
  deadline :: string
  buyerMessage :: "string option"
  messageCreatedAt :: "string option"
  shipping :: "OrderShipping option"
  timeline :: "TimelineEvent list option"

section \<open>The list view: filter, search, sort\<close>

definition matchesFilter :: "string \<Rightarrow> Order \<Rightarrow> bool" where
  "matchesFilter filterStatus order =
     (filterStatus = ''all'' \<or> status_str (status order) = filterStatus)"

definition matchesSearch :: "string \<Rightarrow> Order \<Rightarrow> bool" where
  "matchesSearch searchQuery order =
     (searchQuery = []
      \<or> String_includes (toLowerCase (order_id order)) (toLowerCase searchQuery)
      \<or> String_includes (toLowerCase (buyerName order)) (toLowerCase searchQuery))"

definition matches :: "string \<Rightarrow> string \<Rightarrow> Order \<Rightarrow> bool" where
  "matches filterStatus searchQuery order =
     (matchesFilter filterStatus order \<and> matchesSearch searchQuery order)"

text \<open>The comparison function handed to \<^verbatim>\<open>sort\<close>.\<close>

definition compareOrders :: "(string \<Rightarrow> number) \<Rightarrow> string \<Rightarrow> Order \<Rightarrow> Order \<Rightarrow> fractional" where
  "compareOrders getTime sortBy a b =
     (if sortBy = ''newest''
      then num_sub (whole (getTime (createdAt b))) (whole (getTime (createdAt a)))
      else if sortBy = ''oldest''
      then num_sub (whole (getTime (createdAt a))) (whole (getTime (createdAt b)))
      else if sortBy = ''amount-high'' then num_sub (amount b) (amount a)
      else if sortBy = ''amount-low'' then num_sub (amount a) (amount b)
      else Num 0)"

text \<open>
  \<^verbatim>\<open>Array.prototype.sort\<close> with a comparison function. The language reads a
  \<open>NaN\<close> from the comparison function as 0. Where the comparison function
  orders the elements consistently, the language fixes the result: the sorted
  list in which elements that compare equal keep their order. Where it does not,
  as with a time stamp that is no date next to ones that are, the result is the
  engine's. The model follows V8, the engine of Chrome and Node, on arrays
  shorter than 64 elements: it finds the run the array starts with, reverses it
  when it is strictly descending, and puts each later element into the sorted
  front by binary search. On longer arrays V8 sorts pieces this way and merges
  them; there the model gives the engine's result for a consistent comparison
  function only.
\<close>

fun sortCompare :: "('a \<Rightarrow> 'a \<Rightarrow> fractional) \<Rightarrow> 'a \<Rightarrow> 'a \<Rightarrow> rat" where
  "sortCompare comparefn x y = (case comparefn x y of NaN \<Rightarrow> 0 | Num v \<Rightarrow> v)"

declare sortCompare.simps [simp del]

text \<open>
  The loop of \<^verbatim>\<open>CountAndMakeRun\<close>: how many of the elements after
  \<open>previousElement\<close> continue the run.
\<close>

fun count_run :: "('a \<Rightarrow> 'a \<Rightarrow> fractional) \<Rightarrow> bool \<Rightarrow> 'a \<Rightarrow> 'a list \<Rightarrow> nat" where
  "count_run comparefn isDescending previousElement [] = 0"
| "count_run comparefn isDescending previousElement (currentElement # rest) =
     (let order = sortCompare comparefn currentElement previousElement
      in if (if isDescending then order \<ge> 0 else order < 0) then 0
         else Suc (count_run comparefn isDescending currentElement rest))"

text \<open>
  \<^verbatim>\<open>CountAndMakeRun(0, length)\<close>: the length of the run at the start of the
  array, and the array with that run reversed when it is descending.
\<close>

definition CountAndMakeRun :: "('a \<Rightarrow> 'a \<Rightarrow> fractional) \<Rightarrow> 'a list \<Rightarrow> nat \<times> 'a list" where
  "CountAndMakeRun comparefn workArray =
     (case workArray of
        elementHigh # elementLow # rest \<Rightarrow>
          (let isDescending = sortCompare comparefn elementLow elementHigh < 0;
               runLength = 2 + count_run comparefn isDescending elementLow rest
           in (runLength,
               if isDescending
               then rev (take runLength workArray) @ drop runLength workArray
               else workArray))
      | _ \<Rightarrow> (length workArray, workArray))"

text \<open>
  The search loop of \<^verbatim>\<open>BinaryInsertionSort\<close>: the index where \<open>pivot\<close> goes,
  between \<open>left\<close> and \<open>right\<close>. It is called with \<open>right\<close> at most the length
  of the array, so every index it reads is in range.
\<close>

function binary_search ::
    "('a \<Rightarrow> 'a \<Rightarrow> fractional) \<Rightarrow> 'a \<Rightarrow> 'a list \<Rightarrow> nat \<Rightarrow> nat \<Rightarrow> nat" where
  "binary_search comparefn pivot workArray left right =
     (if left < right
      then (let mid = left + (right - left) div 2
            in if sortCompare comparefn pivot (workArray ! mid) < 0
               then binary_search comparefn pivot workArray left mid
               else binary_search comparefn pivot workArray (mid + 1) right)
      else left)"
  by pat_completeness auto

termination
  by (relation "measure (\<lambda>(comparefn, pivot, workArray, left, right). right - left)") auto

declare binary_search.simps [simp del]

text \<open>
  \<^verbatim>\<open>BinaryInsertionSort(0, start, length)\<close>. The array is \<open>front @ rest\<close> with
  \<open>start\<close> the length of \<open>front\<close>: the pivot is the first element of the rest,
  and moving the elements from \<open>left\<close> on up by one and writing the pivot at
  \<open>left\<close> puts it into the front.
\<close>

fun BinaryInsertionSort :: "('a \<Rightarrow> 'a \<Rightarrow> fractional) \<Rightarrow> 'a list \<Rightarrow> 'a list \<Rightarrow> 'a list" where
  "BinaryInsertionSort comparefn front [] = front"
| "BinaryInsertionSort comparefn front (pivot # rest) =
     (let left = binary_search comparefn pivot front 0 (length front)
      in BinaryInsertionSort comparefn (take left front @ pivot # drop left front) rest)"

definition Array_sort :: "('a \<Rightarrow> 'a \<Rightarrow> fractional) \<Rightarrow> 'a list \<Rightarrow> 'a list" where
  "Array_sort comparefn xs =
     (if length xs < 2 then xs
      else (let (runLength, workArray) = CountAndMakeRun comparefn xs
            in BinaryInsertionSort comparefn (take runLength workArray)
                 (drop runLength workArray)))"

text \<open>
  The sort key of an order as a rational, for the statements about sorting: the
  value of a number, and 0 for \<open>NaN\<close>.
\<close>

fun num_value :: "fractional \<Rightarrow> rat" where
  "num_value NaN = 0"
| "num_value (Num v) = v"

text \<open>
  \<^verbatim>\<open>orders?.filter(...)?.sort(...) || []\<close>: the empty list when \<^verbatim>\<open>orders\<close> is
  null.
\<close>

definition filteredOrders ::
    "(string \<Rightarrow> number) \<Rightarrow> Order list option \<Rightarrow> string \<Rightarrow> string \<Rightarrow> string \<Rightarrow> Order list" where
  "filteredOrders getTime orders filterStatus searchQuery sortBy =
     (case orders of
        None \<Rightarrow> []
      | Some xs \<Rightarrow>
          Array_sort (compareOrders getTime sortBy) (filter (matches filterStatus searchQuery) xs))"

text \<open>
  \<^verbatim>\<open>filter\<close> builds a new array; \<^verbatim>\<open>sort\<close> sorts the array it is called on in
  place and returns it. To see what the expression does to the array that
  \<^verbatim>\<open>orders\<close> holds, here it is once more on a store of arrays, where a reference
  is an index into the store and a new array goes to the end of the store.
\<close>

type_synonym store = "Order list list"

definition Array_filter :: "(Order \<Rightarrow> bool) \<Rightarrow> nat \<Rightarrow> store \<Rightarrow> nat \<times> store" where
  "Array_filter p a h = (length h, h @ [filter p (h ! a)])"

definition Array_sort_in_place ::
    "(Order \<Rightarrow> Order \<Rightarrow> fractional) \<Rightarrow> nat \<Rightarrow> store \<Rightarrow> nat \<times> store" where
  "Array_sort_in_place comparefn a h = (a, h[a := Array_sort comparefn (h ! a)])"

definition filteredOrders_store ::
    "(string \<Rightarrow> number) \<Rightarrow> nat option \<Rightarrow> string \<Rightarrow> string \<Rightarrow> string \<Rightarrow> store
      \<Rightarrow> nat \<times> store" where
  "filteredOrders_store getTime orders filterStatus searchQuery sortBy h =
     (case orders of
        None \<Rightarrow> (length h, h @ [[]])
      | Some a \<Rightarrow>
          (let (b, h1) = Array_filter (matches filterStatus searchQuery) a h
           in Array_sort_in_place (compareOrders getTime sortBy) b h1))"

section \<open>The panel state\<close>

record PerformanceMetrics =
  acceptanceRate :: fractional
  averageDeliveryTime :: string
  disputeRate :: fractional
  totalOrders :: number

record UIState =
  loading :: bool
  orderDetailOpen :: bool
  shippingModalOpen :: bool
  proofUploadOpen :: bool
  messageModalOpen :: bool
  errorNotification :: "string option"
  successNotification :: "string option"

text \<open>
  A \<^verbatim>\<open>File\<close> picked in the shipping form, known by its name. Field
  \<^verbatim>\<open>notes\<close> of \<^verbatim>\<open>ShippingFormState\<close> is \<open>form_notes\<close> here.
\<close>

datatype jsfile = File string

record ShippingFormState =
  courierName :: string
  trackingNumber :: string
  estimatedDeliveryDate :: string
  form_notes :: string
  proofImages :: "jsfile list"

text \<open>The state that \<^verbatim>\<open>OrdersTab\<close> holds in its \<^verbatim>\<open>useState\<close> cells.\<close>

record panel =
  orders :: "Order list option"
  selectedOrder :: "Order option"
  filterStatus :: string
  searchQuery :: string
  sortBy :: string
  ui :: UIState
  shippingForm :: ShippingFormState
  messageInput :: string
  performanceMetrics :: "PerformanceMetrics option"

text \<open>The state \<^verbatim>\<open>OrdersTab\<close> starts from.\<close>

definition emptyShippingForm :: ShippingFormState where
  "emptyShippingForm =
     \<lparr>courierName = [], trackingNumber = [], estimatedDeliveryDate = [], form_notes = [],
      proofImages = []\<rparr>"

definition initial_panel :: panel where
  "initial_panel =
     \<lparr>orders = None, selectedOrder = None, filterStatus = ''all'', searchQuery = [],
      sortBy = ''newest'',
      ui = \<lparr>loading = True, orderDetailOpen = False, shippingModalOpen = False,
            proofUploadOpen = False, messageModalOpen = False, errorNotification = None,
            successNotification = None\<rparr>,
      shippingForm = emptyShippingForm, messageInput = [], performanceMetrics = None\<rparr>"

section \<open>The backend, as the panel sees it\<close>

text \<open>
  A request is the method and path of a \<^verbatim>\<open>fetch\<close> call under
  \<^verbatim>\<open>/api/v1/seller\<close>, with its body. The authorization header is the same on
  every request and left out.
\<close>

datatype form_value = Text string | Blob jsfile

datatype request =
    GET_orders
  | GET_order string
  | POST_accept string
  | POST_reject string
  | POST_shipping string "(string \<times> form_value) list"
  | POST_message string string

text \<open>
  What a \<^verbatim>\<open>fetch\<close> settles to: the promise rejects with an error carrying a
  message (\<open>FetchRejected\<close>), or a response arrives with its \<^verbatim>\<open>ok\<close> flag and
  a body. Reading the body (\<^verbatim>\<open>(await response.json()).data\<close>) gives a value or
  throws an error carrying a message (\<open>JsonError\<close>). An empty message stands for
  a thrown value without one.
\<close>

datatype 'a json = JsonError string | Json 'a

datatype 'a response = FetchRejected string | Response bool "'a json"

text \<open>
  The backend answers a request given all requests sent so far, the answered
  one last. \<open>Json None\<close> is a body whose \<^verbatim>\<open>data\<close> is absent or null. When the
  GET of the list and the GET of an order are both under way,
  \<open>list_settles_first\<close> says whether the list is handled before the order.
\<close>

record server =
  list_orders :: "request list \<Rightarrow> Order list option response"
  order_detail :: "request list \<Rightarrow> Order option response"
  post :: "request list \<Rightarrow> unit response"
  list_settles_first :: "request list \<Rightarrow> bool"

text \<open>
  A handler runs on the panel state and the list of requests sent so far, and
  gives both back. The timers that dismiss notifications are not part of the
  model.
\<close>

type_synonym world = "panel \<times> request list"

text \<open>\<^verbatim>\<open>(error as Error).message || fallback\<close>\<close>

definition message_or :: "string \<Rightarrow> string \<Rightarrow> string" where
  "message_or m fallback = (if m = [] then fallback else m)"

text \<open>The \<^verbatim>\<open>try\<close> block of a handler gives \<open>Inl\<close> the message of the error thrown.\<close>

definition fetchOrders_try :: "Order list option response \<Rightarrow> string + Order list" where
  "fetchOrders_try r =
     (case r of
        FetchRejected m \<Rightarrow> Inl m
      | Response ok body \<Rightarrow>
          if \<not> ok then Inl ''Failed to fetch orders''
          else (case body of
                  JsonError m \<Rightarrow> Inl m
                | Json d \<Rightarrow> Inr (case d of None \<Rightarrow> [] | Some xs \<Rightarrow> xs)))"

definition fetchOrders :: "server \<Rightarrow> world \<Rightarrow> world" where
  "fetchOrders srv w =
     (let (s, sent) = w;
          s1 = s\<lparr>ui := (ui s)\<lparr>loading := True, errorNotification := None\<rparr>\<rparr>;
          sent1 = sent @ [GET_orders];
          s2 = (case fetchOrders_try (list_orders srv sent1) of
                  Inr xs \<Rightarrow> s1\<lparr>orders := Some xs\<rparr>
                | Inl m \<Rightarrow>
                    s1\<lparr>ui := (ui s1)\<lparr>errorNotification :=
                            Some (message_or m ''Failed to load orders. Please try again.'')\<rparr>,
                       orders := Some []\<rparr>)
      in (s2\<lparr>ui := (ui s2)\<lparr>loading := False\<rparr>\<rparr>, sent1))"

definition fetchOrderDetails_try :: "Order option response \<Rightarrow> string + Order option" where
  "fetchOrderDetails_try r =
     (case r of
        FetchRejected m \<Rightarrow> Inl m
      | Response ok body \<Rightarrow>
          if \<not> ok then Inl ''Failed to fetch order details''
          else (case body of JsonError m \<Rightarrow> Inl m | Json d \<Rightarrow> Inr d))"

definition fetchOrderDetails :: "server \<Rightarrow> string \<Rightarrow> world \<Rightarrow> world" where
  "fetchOrderDetails srv orderId w =
     (let (s, sent) = w;
          sent1 = sent @ [GET_order orderId]
      in (case fetchOrderDetails_try (order_detail srv sent1) of
            Inr d \<Rightarrow> (s\<lparr>selectedOrder := d, ui := (ui s)\<lparr>orderDetailOpen := True\<rparr>\<rparr>, sent1)
          | Inl m \<Rightarrow>
              (s\<lparr>ui := (ui s)\<lparr>errorNotification := Some ''Failed to load order details''\<rparr>\<rparr>,
               sent1)))"

text \<open>
  \<^verbatim>\<open>fetchOrders(); fetchOrderDetails(orderId);\<close> at the end of a handler, without
  \<^verbatim>\<open>await\<close>. Each call runs up to its \<^verbatim>\<open>fetch\<close>, so both requests go out, the
  list first, before a response is handled; what each handler does with its
  response then happens in the order in which the responses settle.
\<close>

definition fetchOrders_start :: "world \<Rightarrow> world" where
  "fetchOrders_start w =
     (let (s, sent) = w
      in (s\<lparr>ui := (ui s)\<lparr>loading := True, errorNotification := None\<rparr>\<rparr>, sent @ [GET_orders]))"

definition fetchOrders_settle :: "Order list option response \<Rightarrow> panel \<Rightarrow> panel" where
  "fetchOrders_settle r s1 =
     (let s2 = (case fetchOrders_try r of
                  Inr xs \<Rightarrow> s1\<lparr>orders := Some xs\<rparr>
                | Inl m \<Rightarrow>
                    s1\<lparr>ui := (ui s1)\<lparr>errorNotification :=
                            Some (message_or m ''Failed to load orders. Please try again.'')\<rparr>,
                       orders := Some []\<rparr>)
      in s2\<lparr>ui := (ui s2)\<lparr>loading := False\<rparr>\<rparr>)"

definition fetchOrderDetails_settle :: "Order option response \<Rightarrow> panel \<Rightarrow> panel" where
  "fetchOrderDetails_settle r s =
     (case fetchOrderDetails_try r of
        Inr d \<Rightarrow> s\<lparr>selectedOrder := d, ui := (ui s)\<lparr>orderDetailOpen := True\<rparr>\<rparr>
      | Inl m \<Rightarrow> s\<lparr>ui := (ui s)\<lparr>errorNotification := Some ''Failed to load order details''\<rparr>\<rparr>)"

definition refetch_both :: "server \<Rightarrow> string \<Rightarrow> world \<Rightarrow> world" where
  "refetch_both srv orderId w =
     (let (s1, sent1) = fetchOrders_start w;
          sent2 = sent1 @ [GET_order orderId];
          list_response = list_orders srv sent1;
          detail_response = order_detail srv sent2
      in if list_settles_first srv sent2
         then (fetchOrderDetails_settle detail_response (fetchOrders_settle list_response s1),
               sent2)
         else (fetchOrders_settle list_response (fetchOrderDetails_settle detail_response s1),
               sent2))"

text \<open>The \<^verbatim>\<open>try\<close> block of a POST up to the check of \<^verbatim>\<open>response.ok\<close>.\<close>

definition post_try :: "unit response \<Rightarrow> string \<Rightarrow> string + unit" where
  "post_try r failed =
     (case r of
        FetchRejected m \<Rightarrow> Inl m
      | Response ok body \<Rightarrow> if \<not> ok then Inl failed else Inr ())"

definition acceptOrder :: "server \<Rightarrow> string \<Rightarrow> world \<Rightarrow> world" where
  "acceptOrder srv orderId w =
     (let (s, sent) = w;
          sent1 = sent @ [POST_accept orderId]
      in (case post_try (post srv sent1) ''Failed to accept order'' of
            Inr u \<Rightarrow>
              refetch_both srv orderId
                (s\<lparr>ui := (ui s)\<lparr>successNotification := Some ''Order accepted successfully!''\<rparr>\<rparr>,
                 sent1)
          | Inl m \<Rightarrow>
              (s\<lparr>ui := (ui s)\<lparr>errorNotification := Some (message_or m ''Failed to accept order'')\<rparr>\<rparr>,
               sent1)))"

definition rejectOrder :: "server \<Rightarrow> string \<Rightarrow> world \<Rightarrow> world" where
  "rejectOrder srv orderId w =
     (let (s, sent) = w;
          sent1 = sent @ [POST_reject orderId]
      in (case post_try (post srv sent1) ''Failed to reject order'' of
            Inr u \<Rightarrow>
              fetchOrders srv
                (s\<lparr>ui := (ui s)\<lparr>successNotification := Some ''Order rejected'',
                                 orderDetailOpen := False\<rparr>\<rparr>,
                 sent1)
          | Inl m \<Rightarrow>
              (s\<lparr>ui := (ui s)\<lparr>errorNotification := Some (message_or m ''Failed to reject order'')\<rparr>\<rparr>,
               sent1)))"

text \<open>The \<^verbatim>\<open>FormData\<close> that \<^verbatim>\<open>submitShippingInfo\<close> builds, in the order of its appends.\<close>

definition shipping_formData :: "ShippingFormState \<Rightarrow> (string \<times> form_value) list" where
  "shipping_formData f =
     [(''courierName'', Text (courierName f)),
      (''trackingNumber'', Text (trackingNumber f)),
      (''estimatedDeliveryDate'', Text (estimatedDeliveryDate f)),
      (''notes'', Text (form_notes f))]
     @ map (\<lambda>(idx, image). (''proofImages['' @ show_nat idx @ '']'', Blob image))
         (enumerate 0 (proofImages f))"

definition submitShippingInfo :: "server \<Rightarrow> string \<Rightarrow> world \<Rightarrow> world" where
  "submitShippingInfo srv orderId w =
     (let (s, sent) = w; f = shippingForm s
      in if courierName f = [] \<or> trackingNumber f = [] \<or> estimatedDeliveryDate f = []
         then (s\<lparr>ui := (ui s)\<lparr>errorNotification := Some ''Please fill in all required fields''\<rparr>\<rparr>,
               sent)
         else
           let sent1 = sent @ [POST_shipping orderId (shipping_formData f)]
           in (case post_try (post srv sent1) ''Failed to submit shipping info'' of
                 Inr u \<Rightarrow>
                   refetch_both srv orderId
                     (s\<lparr>ui := (ui s)\<lparr>successNotification :=
                                        Some ''Shipping information added successfully!'',
                                      shippingModalOpen := False\<rparr>,
                        shippingForm := emptyShippingForm\<rparr>,
                      sent1)
               | Inl m \<Rightarrow>
                   (s\<lparr>ui := (ui s)\<lparr>errorNotification :=
                                      Some (message_or m ''Failed to submit shipping info'')\<rparr>\<rparr>,
                    sent1)))"

definition sendMessage :: "server \<Rightarrow> string \<Rightarrow> world \<Rightarrow> world" where
  "sendMessage srv orderId w =
     (let (s, sent) = w
      in if trim (messageInput s) = []
         then (s\<lparr>ui := (ui s)\<lparr>errorNotification := Some ''Message cannot be empty''\<rparr>\<rparr>, sent)
         else
           let sent1 = sent @ [POST_message orderId (messageInput s)]
           in (case post_try (post srv sent1) ''Failed to send message'' of
                 Inr u \<Rightarrow>
                   fetchOrderDetails srv orderId
                     (s\<lparr>messageInput := [],
                        ui := (ui s)\<lparr>successNotification := Some ''Message sent!''\<rparr>\<rparr>,
                      sent1)
               | Inl m \<Rightarrow>
                   (s\<lparr>ui := (ui s)\<lparr>errorNotification := Some (message_or m ''Failed to send message'')\<rparr>\<rparr>,
                    sent1)))"

section \<open>The detail view\<close>

text \<open>
  The buttons of the footer of \<^verbatim>\<open>OrderDetailModal\<close>, in the order of the markup.
  Three blocks are guarded by the status of the selected order; the Close button
  is always there.
\<close>

datatype action = RejectOrder | AcceptOrder | AddShippingInfo | UpdateProof | Close

definition footer_actions :: "Order \<Rightarrow> action list" where
  "footer_actions order =
     (if status order = Pending then [RejectOrder, AcceptOrder] else [])
     @ (if status order = Accepted then [AddShippingInfo] else [])
     @ (if status order = Shipped then [UpdateProof] else [])
     @ [Close]"

text \<open>\<^verbatim>\<open>s || ''\<close> on an optional string.\<close>

fun or_empty :: "string option \<Rightarrow> string" where
  "or_empty None = []"
| "or_empty (Some t) = t"

text \<open>
  The block \<^verbatim>\<open>{selectedOrder.buyerMessage && (...)}\<close>: the message and the label of
  its time, when there is a message.
\<close>

definition buyerMessageBlock ::
    "(string \<Rightarrow> number) \<Rightarrow> (string \<Rightarrow> string) \<Rightarrow> int \<Rightarrow> Order \<Rightarrow> (string \<times> string) option" where
  "buyerMessageBlock getTime toLocaleDateString now order =
     (case buyerMessage order of
        None \<Rightarrow> None
      | Some m \<Rightarrow>
          if m = [] then None
          else Some (m, formatTime getTime toLocaleDateString now (or_empty (messageCreatedAt order))))"

record detail_view =
  created_label :: string
  amount_label :: string
  message_block :: "(string \<times> string) option"
  footer :: "action list"

text \<open>\<^verbatim>\<open>if (!selectedOrder) return null;\<close> is the result \<open>None\<close>.\<close>

definition OrderDetailModal ::
    "(string \<Rightarrow> number) \<Rightarrow> (string \<Rightarrow> string) \<Rightarrow> int \<Rightarrow> panel \<Rightarrow> detail_view option" where
  "OrderDetailModal getTime toLocaleDateString now s =
     (case selectedOrder s of
        None \<Rightarrow> None
      | Some order \<Rightarrow>
          Some \<lparr>created_label = formatTime getTime toLocaleDateString now (createdAt order),
                amount_label = formatCurrency (amount order),
                message_block = buyerMessageBlock getTime toLocaleDateString now order,
                footer = footer_actions order\<rparr>)"

text \<open>\<^verbatim>\<open>{ui.orderDetailOpen && <OrderDetailModal />}\<close>\<close>

definition render_detail ::
    "(string \<Rightarrow> number) \<Rightarrow> (string \<Rightarrow> string) \<Rightarrow> int \<Rightarrow> panel \<Rightarrow> detail_view option" where
  "render_detail getTime toLocaleDateString now s =
     (if orderDetailOpen (ui s) then OrderDetailModal getTime toLocaleDateString now s else None)"

section \<open>Sample data\<close>

text \<open>An order, panel states and backends that the closed instances below run on.\<close>

definition example_order :: Order where
  "example_order =
     \<lparr>order_id = ''ORD-1'', buyerName = ''Amina'', buyerPhone = ''0700000000'',
      buyerLocation = ''Nairobi'', buyerMemberSince = None, buyerRating = None,
      buyerPurchases = None, itemName = ''Kettle'', quantity = Num 1, amount = Num 1500,
      status = Pending, createdAt = ''2024-01-01T00:00:00Z'', deadline = ''2024-01-05T00:00:00Z'',
      buyerMessage = Some ''Please deliver in the morning'', messageCreatedAt = None,
      shipping = None, timeline = None\<rparr>"

definition offline_server :: server where
  "offline_server =
     \<lparr>list_orders = (\<lambda>sent. FetchRejected ''offline''),
      order_detail = (\<lambda>sent. FetchRejected ''offline''),
      post = (\<lambda>sent. FetchRejected ''offline''),
      list_settles_first = (\<lambda>sent. True)\<rparr>"

definition accepting_server :: server where
  "accepting_server =
     \<lparr>list_orders = (\<lambda>sent. Response True (Json (Some [example_order\<lparr>status := Accepted\<rparr>]))),
      order_detail = (\<lambda>sent. Response True (Json (Some (example_order\<lparr>status := Accepted\<rparr>)))),
      post = (\<lambda>sent. Response True (Json ())),
      list_settles_first = (\<lambda>sent. False)\<rparr>"

definition filled_form :: ShippingFormState where
  "filled_form =
     \<lparr>courierName = ''dhl'', trackingNumber = ''KN2025-891234'',
      estimatedDeliveryDate = ''2024-01-04'', form_notes = [], proofImages = []\<rparr>"

definition loaded_panel :: panel where
  "loaded_panel = initial_panel\<lparr>orders := Some [example_order]\<rparr>"

definition rejecting_server :: server where
  "rejecting_server =
     \<lparr>list_orders = (\<lambda>sent. Response True (Json (Some [example_order\<lparr>status := Cancelled\<rparr>]))),
      order_detail = (\<lambda>sent. Response True (Json (Some (example_order\<lparr>status := Cancelled\<rparr>)))),
      post = (\<lambda>sent. Response True (Json ())),
      list_settles_first = (\<lambda>sent. False)\<rparr>"

definition detail_panel :: panel where
  "detail_panel =
     loaded_panel\<lparr>selectedOrder := Some example_order,
                  ui := (ui loaded_panel)\<lparr>loading := False, orderDetailOpen := True\<rparr>\<rparr>"

definition second_order :: Order where
  "second_order =
     \<lparr>order_id = ''ORD-2'', buyerName = ''Brian'', buyerPhone = ''0711111111'',
      buyerLocation = ''Mombasa'', buyerMemberSince = None, buyerRating = None,
      buyerPurchases = None, itemName = ''Lamp'', quantity = Num 2, amount = Num 1500,
      status = Shipped, createdAt = ''2024-01-01T00:00:00Z'', deadline = ''2024-01-06T00:00:00Z'',
      buyerMessage = None, messageCreatedAt = None, shipping = None, timeline = None\<rparr>"

definition third_order :: Order where
  "third_order =
     \<lparr>order_id = ''ORD-3'', buyerName = ''Chao'', buyerPhone = ''0722222222'',
      buyerLocation = ''Kisumu'', buyerMemberSince = None, buyerRating = None,
      buyerPurchases = None, itemName = ''Desk'', quantity = Num 1, amount = Num 9000,
      status = Pending, createdAt = ''2024-01-02T00:00:00Z'', deadline = ''2024-01-07T00:00:00Z'',
      buyerMessage = None, messageCreatedAt = None, shipping = None, timeline = None\<rparr>"

text \<open>A date parser that knows the two time stamps of the sample orders.\<close>

fun sample_getTime :: "string \<Rightarrow> number" where
  "sample_getTime d =
     (if d = ''2024-01-01T00:00:00Z'' then Num 1704067200000
      else if d = ''2024-01-02T00:00:00Z'' then Num 1704153600000
      else NaN)"

text \<open>
  Seven orders, the fifth with a creation time stamp that is no date, the first
  a day older than the other five.
\<close>

definition order_at :: "string \<Rightarrow> string \<Rightarrow> Order" where
  "order_at i c = example_order\<lparr>order_id := i, createdAt := c\<rparr>"

definition mixed_orders :: "Order list" where
  "mixed_orders =
     [order_at ''ORD-0'' ''2024-01-01T00:00:00Z'',
      order_at ''ORD-1'' ''2024-01-02T00:00:00Z'',
      order_at ''ORD-2'' ''2024-01-02T00:00:00Z'',
      order_at ''ORD-3'' ''2024-01-02T00:00:00Z'',
      order_at ''ORD-4'' ''soon'',
      order_at ''ORD-5'' ''2024-01-02T00:00:00Z'',
      order_at ''ORD-6'' ''2024-01-02T00:00:00Z'']"

section \<open>Requests sent by the fetch handlers\<close>

lemma snd_fetchOrders: "snd (fetchOrders srv w) = snd w @ [GET_orders]"
  by (cases w) (simp add: fetchOrders_def Let_def)

lemma snd_fetchOrderDetails: "snd (fetchOrderDetails srv orderId w) = snd w @ [GET_order orderId]"
  by (cases w) (simp add: fetchOrderDetails_def Let_def split: sum.splits)

lemma snd_refetch_both:
  "snd (refetch_both srv orderId w) = snd w @ [GET_orders, GET_order orderId]"
  by (cases w) (simp add: refetch_both_def fetchOrders_start_def Let_def)

text \<open>Awaited alone, each fetch handler is its start followed by its settling.\<close>

lemma fetchOrders_start_settle:
  "fetchOrders srv w =
     (fetchOrders_settle (list_orders srv (snd (fetchOrders_start w))) (fst (fetchOrders_start w)),
      snd (fetchOrders_start w))"
  by (cases w) (simp add: fetchOrders_def fetchOrders_start_def fetchOrders_settle_def Let_def)

lemma fetchOrderDetails_settle_eq:
  "fetchOrderDetails srv orderId (s, sent) =
     (fetchOrderDetails_settle (order_detail srv (sent @ [GET_order orderId])) s,
      sent @ [GET_order orderId])"
  by (simp add: fetchOrderDetails_def fetchOrderDetails_settle_def Let_def split: sum.splits)

text \<open>
  When the list settles first, the two re-fetches are the two handlers one after
  the other.
\<close>

lemma refetch_both_list_first:
  "list_settles_first srv (snd w @ [GET_orders, GET_order orderId]) \<Longrightarrow>
     refetch_both srv orderId w = fetchOrderDetails srv orderId (fetchOrders srv w)"
  by (cases w)
    (simp add: refetch_both_def fetchOrders_start_settle fetchOrderDetails_settle_eq
      fetchOrders_start_def Let_def)

section \<open>Which failures the fetch handlers catch\<close>

lemma fetchOrders_try_Inl:
  "fetchOrders_try r = Inl m \<longleftrightarrow>
     r = FetchRejected m \<or> (\<exists>body. r = Response False body \<and> m = ''Failed to fetch orders'')
     \<or> r = Response True (JsonError m)"
  by (auto simp: fetchOrders_try_def split: response.splits json.splits)

lemma fetchOrderDetails_try_Inl:
  "fetchOrderDetails_try r = Inl m \<longleftrightarrow>
     r = FetchRejected m \<or> (\<exists>body. r = Response False body \<and> m = ''Failed to fetch order details'')
     \<or> r = Response True (JsonError m)"
  by (auto simp: fetchOrderDetails_try_def split: response.splits json.splits)

text \<open>
  When both re-fetches fail, the error notification left is that of the handler
  whose response settles last.
\<close>

lemma refetch_both_both_fail:
  assumes "fetchOrders_try (list_orders srv (sent @ [GET_orders])) = Inl m"
    and "fetchOrderDetails_try (order_detail srv (sent @ [GET_orders, GET_order orderId])) = Inl m'"
  shows "errorNotification (ui (fst (refetch_both srv orderId (s, sent))))
       = Some (if list_settles_first srv (sent @ [GET_orders, GET_order orderId])
               then ''Failed to load order details''
               else message_or m ''Failed to load orders. Please try again.'')"
  using assms
  by (simp add: refetch_both_def fetchOrders_start_def fetchOrders_settle_def
        fetchOrderDetails_settle_def Let_def)

section \<open>Decimal digits, grouping and rounding\<close>

lemma digit_char_digit: "d < 10 \<Longrightarrow> digit_char d \<in> set ''0123456789''"
proof -
  assume "d < 10"
  then have "d \<in> {0,1,2,3,4,5,6,7,8,9}" by auto
  then show ?thesis by (auto simp: digit_char_def)
qed

lemma show_nat_digits: "set (show_nat n) \<subseteq> set ''0123456789''"
proof (induction n rule: show_nat.induct)
  case (1 n)
  show ?case
  proof (cases "n < 10")
    case True
    then show ?thesis
      using digit_char_digit [of n] by (subst show_nat.simps) simp
  next
    case False
    have "n mod 10 < 10" by simp
    then have "digit_char (n mod 10) \<in> set ''0123456789''" by (rule digit_char_digit)
    with False 1 show ?thesis by (subst show_nat.simps) simp
  qed
qed

lemma show_nat_no_comma: "CHR '','' \<notin> set (show_nat n)"
  using show_nat_digits [of n] by auto

lemma digit_value_digit_char: "d < 10 \<Longrightarrow> digit_value (digit_char d) = d"
proof -
  assume "d < 10"
  then have "d \<in> {0,1,2,3,4,5,6,7,8,9}" by auto
  then show ?thesis by (auto simp: digit_char_def digit_value_def)
qed

lemma read_nat_snoc: "read_nat (ds @ [c]) = 10 * read_nat ds + digit_value c"
  by (simp add: read_nat_def)

lemma read_nat_show_nat: "read_nat (show_nat n) = n"
proof (induction n rule: show_nat.induct)
  case (1 n)
  show ?case
  proof (cases "n < 10")
    case True
    then show ?thesis
      by (subst show_nat.simps) (simp add: read_nat_def digit_value_digit_char)
  next
    case False
    have "read_nat (show_nat n) = 10 * read_nat (show_nat (n div 10)) + digit_value (digit_char (n mod 10))"
      using False by (subst show_nat.simps) (simp add: read_nat_snoc)
    also have "\<dots> = 10 * (n div 10) + n mod 10"
      using 1 False by (simp add: digit_value_digit_char)
    finally show ?thesis by simp
  qed
qed

lemma group3_commas: "CHR '','' \<notin> set ds \<Longrightarrow> filter (\<lambda>c. c \<noteq> CHR '','') (group3 ds) = ds"
  by (induction ds rule: group3.induct) auto

lemma grouped_short: "length ds \<le> 3 \<Longrightarrow> grouped ds = ds"
proof -
  assume "length ds \<le> 3"
  then have "length (rev ds) \<le> 3" by simp
  then have "group3 (rev ds) = rev ds"
    by (cases "rev ds" rule: group3.cases) simp_all
  then show ?thesis by (simp add: grouped_def)
qed

lemma grouped_snoc3:
  "ds \<noteq> [] \<Longrightarrow> grouped (ds @ [a, b, c]) = grouped ds @ CHR '','' # [a, b, c]"
  by (cases "rev ds") (simp_all add: grouped_def)

lemma grouped_digits: "filter (\<lambda>c. c \<noteq> CHR '','') (grouped (show_nat n)) = show_nat n"
proof -
  have "CHR '','' \<notin> set (rev (show_nat n))" using show_nat_no_comma by simp
  then have "filter (\<lambda>c. c \<noteq> CHR '','') (group3 (rev (show_nat n))) = rev (show_nat n)"
    by (rule group3_commas)
  then show ?thesis by (simp add: grouped_def flip: rev_filter)
qed

lemma round_half_expand_bracket:
  assumes "0 \<le> x"
  shows "of_nat (round_half_expand x) \<le> x + 1 / 2 \<and> x + 1 / 2 < of_nat (round_half_expand x) + 1"
proof -
  have "0 \<le> \<lfloor>x + 1 / 2\<rfloor>" using assms by simp
  then have "(of_nat (nat \<lfloor>x + 1 / 2\<rfloor>) :: rat) = of_int \<lfloor>x + 1 / 2\<rfloor>" by simp
  then show ?thesis
    using assms by (simp add: round_half_expand_def) linarith
qed

lemma round_half_expand_whole: "0 \<le> i \<Longrightarrow> round_half_expand (of_int i) = nat i"
proof -
  assume "0 \<le> i"
  have "\<lfloor>(of_int i :: rat) + 1 / 2\<rfloor> = i" by linarith
  then show ?thesis using \<open>0 \<le> i\<close> by (simp add: round_half_expand_def)
qed

lemma round_half_expand_samples:
  "round_half_expand 1234567 = 1234567" "round_half_expand 1500 = 1500"
  "round_half_expand (2469 / 2) = 1235" "round_half_expand (2 / 5) = 0"
  using round_half_expand_whole [of 1234567] round_half_expand_whole [of 1500]
  by (simp_all add: round_half_expand_def)

lemma is_space_simps:
  "is_space CHR '' ''" "is_space (CHR 0x09)" "is_space (CHR 0x0A)"
  "\<not> is_space CHR ''h''" "\<not> is_space CHR ''i''"
  by (simp_all add: is_space_def)

section \<open>Sorting\<close>

text \<open>Whatever the comparison function, the sort permutes the list.\<close>

lemma mset_take_drop: "mset (take n xs) + mset (drop n xs) = mset xs"
  by (simp flip: mset_append)

lemma count_run_le: "count_run comparefn d p cs \<le> length cs"
  by (induction cs arbitrary: p) (auto simp: Let_def)

lemma fst_CountAndMakeRun_le: "fst (CountAndMakeRun comparefn xs) \<le> length xs"
  using count_run_le [of comparefn]
  by (auto simp: CountAndMakeRun_def Let_def split: list.splits)

lemma mset_CountAndMakeRun: "mset (snd (CountAndMakeRun comparefn xs)) = mset xs"
  by (simp add: CountAndMakeRun_def Let_def mset_take_drop split: list.splits)

lemma mset_BinaryInsertionSort:
  "mset (BinaryInsertionSort comparefn front rest) = mset front + mset rest"
proof (induction rest arbitrary: front)
  case Nil
  show ?case by simp
next
  case (Cons pivot rest)
  have "mset (take l front @ pivot # drop l front) = add_mset pivot (mset front)" for l
    using mset_take_drop [of l front] by simp
  with Cons show ?case by (simp add: Let_def)
qed

lemma mset_Array_sort: "mset (Array_sort comparefn xs) = mset xs"
proof (cases "length xs < 2")
  case True
  then show ?thesis by (simp add: Array_sort_def)
next
  case False
  obtain n w where nw: "CountAndMakeRun comparefn xs = (n, w)"
    by (cases "CountAndMakeRun comparefn xs")
  then have "mset w = mset xs"
    using mset_CountAndMakeRun [of comparefn xs] by simp
  then show ?thesis
    using False nw by (simp add: Array_sort_def mset_BinaryInsertionSort mset_take_drop)
qed

text \<open>
  A comparison function is consistent on a set when it is the difference of a
  key there. Then the sort gives a list sorted by the key in which elements of
  the same key keep their order: the result the language fixes.
\<close>

lemma binary_search_bounds:
  assumes cmp: "\<And>a b. a \<in> S \<Longrightarrow> b \<in> S \<Longrightarrow> sortCompare comparefn a b = g a - g b"
    and "set w \<subseteq> S" and "p \<in> S" and "sorted (map g w)"
    and "left \<le> right" and "right \<le> length w"
    and "\<forall>i<left. g (w ! i) \<le> g p"
    and "\<forall>i. right \<le> i \<and> i < length w \<longrightarrow> g p < g (w ! i)"
  shows "binary_search comparefn p w left right \<le> length w
       \<and> (\<forall>i<binary_search comparefn p w left right. g (w ! i) \<le> g p)
       \<and> (\<forall>i. binary_search comparefn p w left right \<le> i \<and> i < length w \<longrightarrow> g p < g (w ! i))"
  using assms
proof (induction comparefn p w left right rule: binary_search.induct)
  case (1 comparefn pivot workArray left right)
  note cmp = "1.prems"(1)
  show ?case
  proof (cases "left < right")
    case False
    then have "binary_search comparefn pivot workArray left right = left"
      by (subst binary_search.simps) simp
    moreover have "left = right" using False "1.prems" by simp
    ultimately show ?thesis using "1.prems" by simp
  next
    case True
    define mid where "mid = left + (right - left) div 2"
    have m: "left \<le> mid" "mid < right" using True by (auto simp: mid_def)
    then have ml: "mid < length workArray" using "1.prems" by simp
    then have mem: "workArray ! mid \<in> S" using "1.prems" by auto
    have srt: "\<And>i j. i \<le> j \<Longrightarrow> j < length workArray \<Longrightarrow> g (workArray ! i) \<le> g (workArray ! j)"
      using \<open>sorted (map g workArray)\<close> by (auto simp: sorted_iff_nth_mono)
    show ?thesis
    proof (cases "sortCompare comparefn pivot (workArray ! mid) < 0")
      case lt: True
      then have "g pivot < g (workArray ! mid)"
        using cmp [OF \<open>pivot \<in> S\<close> mem] by linarith
      then have r: "\<forall>i. mid \<le> i \<and> i < length workArray \<longrightarrow> g pivot < g (workArray ! i)"
        using srt by (meson less_le_trans)
      have "binary_search comparefn pivot workArray left right
          = binary_search comparefn pivot workArray left mid"
        using True lt by (subst binary_search.simps) (simp add: mid_def Let_def)
      moreover have "binary_search comparefn pivot workArray left mid \<le> length workArray
       \<and> (\<forall>i<binary_search comparefn pivot workArray left mid. g (workArray ! i) \<le> g pivot)
       \<and> (\<forall>i. binary_search comparefn pivot workArray left mid \<le> i \<and> i < length workArray
              \<longrightarrow> g pivot < g (workArray ! i))"
        using "1.IH"(1) [OF True mid_def lt cmp] "1.prems"(2-) m ml r by simp
      ultimately show ?thesis by simp
    next
      case ge: False
      then have "g (workArray ! mid) \<le> g pivot"
        using cmp [OF \<open>pivot \<in> S\<close> mem] by linarith
      then have l: "\<forall>i<mid + 1. g (workArray ! i) \<le> g pivot"
        using srt ml by (metis Suc_eq_plus1 less_Suc_eq_le order_trans)
      have "binary_search comparefn pivot workArray left right
          = binary_search comparefn pivot workArray (mid + 1) right"
        using True ge by (subst binary_search.simps) (simp add: mid_def Let_def)
      moreover have "binary_search comparefn pivot workArray (mid + 1) right \<le> length workArray
       \<and> (\<forall>i<binary_search comparefn pivot workArray (mid + 1) right. g (workArray ! i) \<le> g pivot)
       \<and> (\<forall>i. binary_search comparefn pivot workArray (mid + 1) right \<le> i \<and> i < length workArray
              \<longrightarrow> g pivot < g (workArray ! i))"
        using "1.IH"(2) [OF True mid_def ge cmp] "1.prems"(2-) m ml l by simp
      ultimately show ?thesis by simp
    qed
  qed
qed

lemma binary_insert_sorted_stable:
  assumes cmp: "\<And>a b. a \<in> S \<Longrightarrow> b \<in> S \<Longrightarrow> sortCompare comparefn a b = g a - g b"
    and "set front \<subseteq> S" and "p \<in> S" and "sorted (map g front)"
    and "l = binary_search comparefn p front 0 (length front)"
  shows "sorted (map g (take l front @ p # drop l front))
       \<and> filter (\<lambda>y. g y = k) (take l front @ p # drop l front)
           = filter (\<lambda>y. g y = k) (front @ [p])"
proof -
  have b: "l \<le> length front \<and> (\<forall>i<l. g (front ! i) \<le> g p)
       \<and> (\<forall>i. l \<le> i \<and> i < length front \<longrightarrow> g p < g (front ! i))"
    unfolding assms(5)
    using binary_search_bounds [OF cmp assms(2,3,4), of 0 "length front"] by simp
  have t: "\<forall>x\<in>set (take l front). g x \<le> g p"
    using b by (auto simp: in_set_conv_nth)
  have d: "\<forall>x\<in>set (drop l front). g p < g x"
    using b by (auto simp: in_set_conv_nth)
  have "sorted (map g (take l front) @ map g (drop l front))"
    using assms(4) by (simp flip: map_append)
  then have s: "sorted (map g (take l front))" "sorted (map g (drop l front))"
    "\<forall>x\<in>set (take l front). \<forall>y\<in>set (drop l front). g x \<le> g y"
    by (auto simp: sorted_append)
  have 1: "sorted (map g (take l front @ p # drop l front))"
    using s t d by (auto simp: sorted_append less_imp_le)
  have e: "g p = k \<Longrightarrow> filter (\<lambda>y. g y = k) (drop l front) = []"
    using d by (auto simp: filter_empty_conv)
  have "filter (\<lambda>y. g y = k) (take l front @ p # drop l front)
      = filter (\<lambda>y. g y = k) (take l front @ drop l front @ [p])"
    using e by (cases "g p = k") simp_all
  then have 2: "filter (\<lambda>y. g y = k) (take l front @ p # drop l front)
      = filter (\<lambda>y. g y = k) (front @ [p])"
    by (metis append_assoc append_take_drop_id)
  from 1 2 show ?thesis by simp
qed

lemma BinaryInsertionSort_sorted_stable:
  assumes cmp: "\<And>a b. a \<in> S \<Longrightarrow> b \<in> S \<Longrightarrow> sortCompare comparefn a b = g a - g b"
    and "set front \<subseteq> S" and "set rest \<subseteq> S" and "sorted (map g front)"
  shows "sorted (map g (BinaryInsertionSort comparefn front rest))
       \<and> filter (\<lambda>y. g y = k) (BinaryInsertionSort comparefn front rest)
           = filter (\<lambda>y. g y = k) (front @ rest)"
  using assms(2-)
proof (induction rest arbitrary: front)
  case Nil
  then show ?case by simp
next
  case (Cons pivot rest)
  define l where "l = binary_search comparefn pivot front 0 (length front)"
  define front' where "front' = take l front @ pivot # drop l front"
  have p: "pivot \<in> S" and r: "set rest \<subseteq> S" using Cons.prems by auto
  have ins: "sorted (map g front')
       \<and> filter (\<lambda>y. g y = k) front' = filter (\<lambda>y. g y = k) (front @ [pivot])"
    unfolding front'_def
    by (rule binary_insert_sorted_stable [OF cmp Cons.prems(1) p Cons.prems(3) l_def])
  have "set front' \<subseteq> S"
  proof -
    have "set (take l front) \<subseteq> set front" "set (drop l front) \<subseteq> set front"
      by (auto dest: in_set_takeD in_set_dropD)
    then show ?thesis using Cons.prems(1) p by (auto simp: front'_def)
  qed
  from Cons.IH [OF this r] ins
  have "sorted (map g (BinaryInsertionSort comparefn front' rest))
       \<and> filter (\<lambda>y. g y = k) (BinaryInsertionSort comparefn front' rest)
           = filter (\<lambda>y. g y = k) (front' @ rest)"
    by simp
  moreover have "BinaryInsertionSort comparefn front (pivot # rest)
      = BinaryInsertionSort comparefn front' rest"
    by (simp add: Let_def l_def front'_def)
  ultimately show ?case using ins by simp
qed

lemma count_run_ascending:
  assumes cmp: "\<And>a b. a \<in> S \<Longrightarrow> b \<in> S \<Longrightarrow> sortCompare comparefn a b = g a - g b"
    and "p \<in> S" and "set cs \<subseteq> S"
  shows "sorted (map g (p # take (count_run comparefn False p cs) cs))"
  using assms(2-)
proof (induction cs arbitrary: p)
  case Nil
  show ?case by simp
next
  case (Cons c cs)
  have c: "c \<in> S" "set cs \<subseteq> S" using Cons.prems by auto
  have o: "sortCompare comparefn c p = g c - g p"
    using cmp c(1) Cons.prems(1) by simp
  show ?case
  proof (cases "sortCompare comparefn c p < 0")
    case True
    then show ?thesis by (simp add: Let_def)
  next
    case False
    then have "g p \<le> g c" using o by linarith
    then show ?thesis
      using False Cons.IH [OF c] by (auto simp: Let_def intro: order_trans [of "g p" "g c"])
  qed
qed

lemma count_run_descending:
  assumes cmp: "\<And>a b. a \<in> S \<Longrightarrow> b \<in> S \<Longrightarrow> sortCompare comparefn a b = g a - g b"
    and "p \<in> S" and "set cs \<subseteq> S"
  shows "sorted (map g (rev (p # take (count_run comparefn True p cs) cs)))
       \<and> distinct (map g (p # take (count_run comparefn True p cs) cs))
       \<and> (\<forall>x\<in>set (take (count_run comparefn True p cs) cs). g x < g p)"
  using assms(2-)
proof (induction cs arbitrary: p)
  case Nil
  show ?case by simp
next
  case (Cons c cs)
  have c: "c \<in> S" "set cs \<subseteq> S" using Cons.prems by auto
  have o: "sortCompare comparefn c p = g c - g p"
    using cmp c(1) Cons.prems(1) by simp
  show ?case
  proof (cases "sortCompare comparefn c p \<ge> 0")
    case True
    then show ?thesis by (simp add: Let_def)
  next
    case False
    then have lt: "g c < g p" using o by linarith
    let ?n = "count_run comparefn True c cs"
    from Cons.IH [OF c]
    have ih: "sorted (map g (rev (c # take ?n cs)))" "distinct (map g (c # take ?n cs))"
      "\<forall>x\<in>set (take ?n cs). g x < g c"
      by simp_all
    have n: "count_run comparefn True p (c # cs) = Suc ?n"
      using False by (simp add: Let_def)
    have below: "\<forall>x\<in>set (c # take ?n cs). g x < g p"
      using lt ih(3) by auto
    have "sorted (map g (rev (c # take ?n cs)) @ [g p])"
      using ih(1) below by (auto simp: sorted_append less_imp_le simp del: rev.simps)
    moreover have "distinct (map g (p # c # take ?n cs))"
      using ih(2) below by auto
    ultimately show ?thesis
      using below by (simp add: n)
  qed
qed

lemma filter_rev_distinct_keys:
  "distinct (map g xs) \<Longrightarrow> filter (\<lambda>y. g y = k) (rev xs) = filter (\<lambda>y. g y = k) xs"
proof (induction xs)
  case Nil
  show ?case by simp
next
  case (Cons x xs)
  then have ih: "filter (\<lambda>y. g y = k) (rev xs) = filter (\<lambda>y. g y = k) xs" by simp
  show ?case
  proof (cases "g x = k")
    case True
    then have "filter (\<lambda>y. g y = k) xs = []"
      using Cons.prems by (auto simp: filter_empty_conv image_iff)
    then show ?thesis using True ih by simp
  next
    case False
    then show ?thesis using ih by simp
  qed
qed

lemma CountAndMakeRun_sorted_stable:
  assumes cmp: "\<And>a b. a \<in> S \<Longrightarrow> b \<in> S \<Longrightarrow> sortCompare comparefn a b = g a - g b"
    and "set xs \<subseteq> S" and "CountAndMakeRun comparefn xs = (n, w)"
  shows "sorted (map g (take n w))
       \<and> filter (\<lambda>y. g y = k) w = filter (\<lambda>y. g y = k) xs"
proof (cases xs)
  case Nil
  with assms(3) show ?thesis by (simp add: CountAndMakeRun_def)
next
  case (Cons x0 ys)
  show ?thesis
  proof (cases ys)
    case Nil
    with Cons assms(3) show ?thesis by (auto simp: CountAndMakeRun_def)
  next
    case (Cons x1 rest)
    note xs = \<open>xs = x0 # ys\<close> Cons
    have mem: "x0 \<in> S" "x1 \<in> S" "set rest \<subseteq> S" using assms(2) xs by auto
    have o: "sortCompare comparefn x1 x0 = g x1 - g x0" using cmp mem by simp
    show ?thesis
    proof (cases "sortCompare comparefn x1 x0 < 0")
      case False
      let ?m = "count_run comparefn False x1 rest"
      have nw: "n = 2 + ?m" "w = xs"
        using assms(3) False xs by (auto simp: CountAndMakeRun_def Let_def)
      have "g x0 \<le> g x1" using False o by linarith
      then have "sorted (map g (x0 # x1 # take ?m rest))"
        using count_run_ascending [OF cmp mem(2,3)]
        by (auto intro: order_trans [of "g x0" "g x1"])
      then show ?thesis using nw xs by simp
    next
      case True
      let ?m = "count_run comparefn True x1 rest"
      let ?run = "x0 # x1 # take ?m rest"
      have n: "n = 2 + ?m" and w: "w = rev (take n xs) @ drop n xs"
        using assms(3) True xs by (auto simp: CountAndMakeRun_def Let_def)
      have run: "take n xs = ?run" using n xs by simp
      have len: "length (take n xs) = n"
        using n xs count_run_le [of comparefn True x1 rest] by simp
      have lt: "g x1 < g x0" using True o by linarith
      from count_run_descending [OF cmp mem(2,3)]
      have d: "sorted (map g (rev (x1 # take ?m rest)))" "distinct (map g (x1 # take ?m rest))"
        "\<forall>x\<in>set (take ?m rest). g x < g x1"
        by simp_all
      have below: "\<forall>x\<in>set (x1 # take ?m rest). g x < g x0"
        using lt d(3) by auto
      have "sorted (map g (rev (x1 # take ?m rest)) @ [g x0])"
        using d(1) below by (auto simp: sorted_append less_imp_le simp del: rev.simps)
      then have s: "sorted (map g (rev ?run))" by simp
      have dis: "distinct (map g ?run)" using d(2) below by auto
      have "take n w = rev (take n xs)" using w len by simp
      then have 1: "sorted (map g (take n w))" using s run by simp
      have "filter (\<lambda>y. g y = k) (rev (take n xs)) = filter (\<lambda>y. g y = k) (take n xs)"
        using filter_rev_distinct_keys [of g ?run k] dis run by simp
      then have "filter (\<lambda>y. g y = k) w
          = filter (\<lambda>y. g y = k) (take n xs) @ filter (\<lambda>y. g y = k) (drop n xs)"
        unfolding w by simp
      also have "\<dots> = filter (\<lambda>y. g y = k) (take n xs @ drop n xs)"
        by (simp only: filter_append)
      finally have 2: "filter (\<lambda>y. g y = k) w = filter (\<lambda>y. g y = k) xs" by simp
      from 1 2 show ?thesis by simp
    qed
  qed
qed

lemma Array_sort_sorted_stable:
  assumes cmp: "\<And>a b. a \<in> set xs \<Longrightarrow> b \<in> set xs \<Longrightarrow> sortCompare comparefn a b = g a - g b"
  shows "sorted (map g (Array_sort comparefn xs))
       \<and> filter (\<lambda>y. g y = k) (Array_sort comparefn xs) = filter (\<lambda>y. g y = k) xs"
proof (cases "length xs < 2")
  case True
  then have "xs = [] \<or> (\<exists>x. xs = [x])"
    by (cases xs) (auto simp: length_Suc_conv)
  then show ?thesis using True by (auto simp: Array_sort_def)
next
  case False
  obtain n w where nw: "CountAndMakeRun comparefn xs = (n, w)"
    by (cases "CountAndMakeRun comparefn xs")
  have run: "sorted (map g (take n w))" "filter (\<lambda>y. g y = k) w = filter (\<lambda>y. g y = k) xs"
    using CountAndMakeRun_sorted_stable [OF cmp subset_refl nw] by simp_all
  have "mset w = mset xs" using mset_CountAndMakeRun [of comparefn xs] nw by simp
  then have "set w = set xs" by (rule mset_eq_setD)
  then have sub: "set (take n w) \<subseteq> set xs" "set (drop n w) \<subseteq> set xs"
    by (auto dest: in_set_takeD in_set_dropD)
  have "sorted (map g (BinaryInsertionSort comparefn (take n w) (drop n w)))
       \<and> filter (\<lambda>y. g y = k) (BinaryInsertionSort comparefn (take n w) (drop n w))
           = filter (\<lambda>y. g y = k) (take n w @ drop n w)"
    by (rule BinaryInsertionSort_sorted_stable [OF cmp sub run(1)])
  then show ?thesis
    using False nw run(2) by (simp add: Array_sort_def)
qed

lemma Array_sort_sort_key:
  assumes "\<And>a b. a \<in> set xs \<Longrightarrow> b \<in> set xs \<Longrightarrow> sortCompare comparefn a b = g a - g b"
  shows "Array_sort comparefn xs = sort_key g xs"
proof (rule properties_for_sort_key [symmetric])
  show "mset (Array_sort comparefn xs) = mset xs" by (rule mset_Array_sort)
  show "sorted (map g (Array_sort comparefn xs))"
    using Array_sort_sorted_stable [OF assms] by simp
  show "filter (\<lambda>x. g k = g x) (Array_sort comparefn xs) = filter (\<lambda>x. g k = g x) xs" for k
  proof -
    have e: "(\<lambda>x. g k = g x) = (\<lambda>y. g y = g k)" by auto
    show ?thesis
      unfolding e using Array_sort_sorted_stable [OF assms] by simp
  qed
qed

lemma Array_sort_stable_key:
  assumes cmp: "\<And>a b. a \<in> set xs \<Longrightarrow> b \<in> set xs \<Longrightarrow> sortCompare comparefn a b = g a - g b"
    and key: "\<And>a b. a \<in> set xs \<Longrightarrow> b \<in> set xs \<Longrightarrow> (key a = key b) = (g a = g b)"
  shows "filter (\<lambda>y. key y = k) (Array_sort comparefn xs) = filter (\<lambda>y. key y = k) xs"
proof -
  have set_eq: "set (Array_sort comparefn xs) = set xs"
    using mset_Array_sort [of comparefn xs] by (rule mset_eq_setD)
  show ?thesis
  proof (cases "\<exists>z\<in>set xs. key z = k")
    case False
    then have "filter (\<lambda>y. key y = k) xs = []"
      and "filter (\<lambda>y. key y = k) (Array_sort comparefn xs) = []"
      using set_eq by (auto simp: filter_empty_conv)
    then show ?thesis by simp
  next
    case True
    then obtain z where z: "z \<in> set xs" "key z = k" by blast
    have same: "(key y = k) = (g y = g z)" if "y \<in> set xs" for y
      using key [OF that z(1)] z(2) by simp
    have "filter (\<lambda>y. key y = k) (Array_sort comparefn xs)
        = filter (\<lambda>y. g y = g z) (Array_sort comparefn xs)"
      using same set_eq by (intro filter_cong) auto
    also have "\<dots> = filter (\<lambda>y. g y = g z) xs"
      using Array_sort_sorted_stable [OF cmp] by simp
    also have "\<dots> = filter (\<lambda>y. key y = k) xs"
      using same by (intro filter_cong) auto
    finally show ?thesis .
  qed
qed

lemma Array_sort_equal:
  assumes "\<And>a b. a \<in> set xs \<Longrightarrow> b \<in> set xs \<Longrightarrow> sortCompare comparefn a b = 0"
  shows "Array_sort comparefn xs = xs"
proof -
  have "filter (\<lambda>y. (0::rat) = 0) (Array_sort comparefn xs) = filter (\<lambda>y. (0::rat) = 0) xs"
    using Array_sort_sorted_stable [of xs comparefn "\<lambda>y. 0" 0] assms by simp
  then show ?thesis by simp
qed

text \<open>The comparison function of the pipeline on orders whose keys are numbers.\<close>

lemma compare_newest:
  assumes "getTime (createdAt a) \<noteq> NaN" and "getTime (createdAt b) \<noteq> NaN"
  shows "sortCompare (compareOrders getTime ''newest'') a b
      = - num_value (whole (getTime (createdAt a))) - - num_value (whole (getTime (createdAt b)))"
  using assms
  by (cases "getTime (createdAt a)"; cases "getTime (createdAt b)")
    (simp_all add: compareOrders_def sortCompare.simps)

lemma compare_oldest:
  assumes "getTime (createdAt a) \<noteq> NaN" and "getTime (createdAt b) \<noteq> NaN"
  shows "sortCompare (compareOrders getTime ''oldest'') a b
      = num_value (whole (getTime (createdAt a))) - num_value (whole (getTime (createdAt b)))"
  using assms
  by (cases "getTime (createdAt a)"; cases "getTime (createdAt b)")
    (simp_all add: compareOrders_def sortCompare.simps)

lemma compare_amount_high:
  assumes "amount a \<noteq> NaN" and "amount b \<noteq> NaN"
  shows "sortCompare (compareOrders getTime ''amount-high'') a b
      = - num_value (amount a) - - num_value (amount b)"
  using assms
  by (cases "amount a"; cases "amount b") (simp_all add: compareOrders_def sortCompare.simps)

lemma compare_amount_low:
  assumes "amount a \<noteq> NaN" and "amount b \<noteq> NaN"
  shows "sortCompare (compareOrders getTime ''amount-low'') a b
      = num_value (amount a) - num_value (amount b)"
  using assms
  by (cases "amount a"; cases "amount b") (simp_all add: compareOrders_def sortCompare.simps)

lemma compare_other:
  assumes "sb \<noteq> ''newest''" "sb \<noteq> ''oldest''" "sb \<noteq> ''amount-high''" "sb \<noteq> ''amount-low''"
  shows "sortCompare (compareOrders getTime sb) a b = 0"
  using assms by (simp add: compareOrders_def sortCompare.simps)

lemma time_key_eq:
  assumes "t \<noteq> NaN" and "u \<noteq> NaN"
  shows "(t = u) = (num_value (whole t) = num_value (whole u))"
  using assms by (cases t; cases u) simp_all

lemma amount_key_eq:
  assumes "t \<noteq> NaN" and "u \<noteq> NaN"
  shows "(t = u) = (num_value t = num_value u)"
  using assms by (cases t; cases u) simp_all

lemma stable_by_time:
  assumes "sb = ''newest'' \<or> sb = ''oldest''"
    and valid: "\<forall>order\<in>set xs. getTime (createdAt order) \<noteq> NaN"
  shows "filter (\<lambda>order. getTime (createdAt order) = k) (Array_sort (compareOrders getTime sb) xs)
       = filter (\<lambda>order. getTime (createdAt order) = k) xs"
proof (cases "sb = ''newest''")
  case True
  show ?thesis
    unfolding True
  proof (rule Array_sort_stable_key
          [where g = "\<lambda>order. - num_value (whole (getTime (createdAt order)))"])
    fix a b
    assume "a \<in> set xs" and "b \<in> set xs"
    then have v: "getTime (createdAt a) \<noteq> NaN" "getTime (createdAt b) \<noteq> NaN"
      using valid by auto
    show "sortCompare (compareOrders getTime ''newest'') a b
        = - num_value (whole (getTime (createdAt a))) - - num_value (whole (getTime (createdAt b)))"
      using v by (rule compare_newest)
    show "(getTime (createdAt a) = getTime (createdAt b))
        = (- num_value (whole (getTime (createdAt a))) = - num_value (whole (getTime (createdAt b))))"
      using time_key_eq [OF v] by simp
  qed
next
  case False
  with assms(1) have o: "sb = ''oldest''" by simp
  show ?thesis
    unfolding o
  proof (rule Array_sort_stable_key
          [where g = "\<lambda>order. num_value (whole (getTime (createdAt order)))"])
    fix a b
    assume "a \<in> set xs" and "b \<in> set xs"
    then have v: "getTime (createdAt a) \<noteq> NaN" "getTime (createdAt b) \<noteq> NaN"
      using valid by auto
    show "sortCompare (compareOrders getTime ''oldest'') a b
        = num_value (whole (getTime (createdAt a))) - num_value (whole (getTime (createdAt b)))"
      using v by (rule compare_oldest)
    show "(getTime (createdAt a) = getTime (createdAt b))
        = (num_value (whole (getTime (createdAt a))) = num_value (whole (getTime (createdAt b))))"
      using v by (rule time_key_eq)
  qed
qed

lemma stable_by_amount:
  assumes "sb = ''amount-high'' \<or> sb = ''amount-low''"
    and valid: "\<forall>order\<in>set xs. amount order \<noteq> NaN"
  shows "filter (\<lambda>order. amount order = n) (Array_sort (compareOrders getTime sb) xs)
       = filter (\<lambda>order. amount order = n) xs"
proof (cases "sb = ''amount-high''")
  case True
  show ?thesis
    unfolding True
  proof (rule Array_sort_stable_key [where g = "\<lambda>order. - num_value (amount order)"])
    fix a b
    assume "a \<in> set xs" and "b \<in> set xs"
    then have v: "amount a \<noteq> NaN" "amount b \<noteq> NaN"
      using valid by auto
    show "sortCompare (compareOrders getTime ''amount-high'') a b
        = - num_value (amount a) - - num_value (amount b)"
      using v by (rule compare_amount_high)
    show "(amount a = amount b) = (- num_value (amount a) = - num_value (amount b))"
      using amount_key_eq [OF v] by simp
  qed
next
  case False
  with assms(1) have o: "sb = ''amount-low''" by simp
  show ?thesis
    unfolding o
  proof (rule Array_sort_stable_key [where g = "\<lambda>order. num_value (amount order)"])
    fix a b
    assume "a \<in> set xs" and "b \<in> set xs"
    then have v: "amount a \<noteq> NaN" "amount b \<noteq> NaN"
      using valid by auto
    show "sortCompare (compareOrders getTime ''amount-low'') a b
        = num_value (amount a) - num_value (amount b)"
      using v by (rule compare_amount_low)
    show "(amount a = amount b) = (num_value (amount a) = num_value (amount b))"
      using v by (rule amount_key_eq)
  qed
qed

section \<open>The filter step and the sample orders\<close>

lemma matches_all: "matches ''all'' q = matchesSearch q"
  by (rule ext) (simp add: matches_def matchesFilter_def)

lemma matches_no_query: "matches fs [] = matchesFilter fs"
  by (rule ext) (simp add: matches_def matchesSearch_def)

lemma matchesSearch_no_query: "matchesSearch [] = (\<lambda>order. True)"
  by (rule ext) (simp add: matchesSearch_def)

lemma filteredOrders_Some:
  "filteredOrders getTime (Some xs) fs q sb
     = Array_sort (compareOrders getTime sb) (filter (matches fs q) xs)"
  by (simp add: filteredOrders_def)

lemma sample_orders_fields:
  "order_id example_order = ''ORD-1''" "order_id second_order = ''ORD-2''"
  "order_id third_order = ''ORD-3''"
  "amount example_order = Num 1500" "amount second_order = Num 1500" "amount third_order = Num 9000"
  "createdAt example_order = ''2024-01-01T00:00:00Z''"
  "createdAt second_order = ''2024-01-01T00:00:00Z''"
  "createdAt third_order = ''2024-01-02T00:00:00Z''"
  "status example_order = Pending" "status second_order = Shipped" "status third_order = Pending"
  by (simp_all add: example_order_def second_order_def third_order_def)

lemma sample_sorted:
  "filteredOrders sample_getTime (Some [example_order, third_order, second_order]) ''all'' [] ''newest''
     = [third_order, example_order, second_order]"
  "filteredOrders sample_getTime (Some [third_order, example_order, second_order]) ''all'' [] ''amount-low''
     = [example_order, second_order, third_order]"
  by code_simp+

section \<open>Properties\<close>

text \<open>
  C1. The footer of the detail view is determined by the status of the selected
  order: Reject and Accept (and Close) for \<open>pending\<close>, Add Shipping Info for
  \<open>accepted\<close>, Update Proof for \<open>shipped\<close>, and only Close for \<open>completed\<close>,
  \<open>dispute\<close> and \<open>cancelled\<close>.
\<close>

theorem footer_by_status:
  "selectedOrder s = Some order \<longrightarrow>
     (\<exists>v. OrderDetailModal getTime toLocaleDateString now s = Some v
        \<and> footer v =
            (case status order of
               Pending \<Rightarrow> [RejectOrder, AcceptOrder, Close]
             | Accepted \<Rightarrow> [AddShippingInfo, Close]
             | Shipped \<Rightarrow> [UpdateProof, Close]
             | Completed \<Rightarrow> [Close]
             | Dispute \<Rightarrow> [Close]
             | Cancelled \<Rightarrow> [Close]))"
  by (cases "status order") (simp_all add: OrderDetailModal_def footer_actions_def)

text \<open>
  The scenario of the specification: order ORD-1 is pending and offers Reject and
  Accept; after a successful accept and a re-fetch that reports \<open>accepted\<close>, the
  footer offers Add Shipping Info and neither Accept nor Reject.
\<close>

theorem footer_by_status_witness:
  "(\<exists>v. OrderDetailModal (\<lambda>d. NaN) (\<lambda>d. d) 0 detail_panel = Some v
        \<and> footer v = [RejectOrder, AcceptOrder, Close])
   \<and> (\<exists>v. OrderDetailModal (\<lambda>d. NaN) (\<lambda>d. d) 0
             (fst (acceptOrder accepting_server ''ORD-1'' (detail_panel, []))) = Some v
        \<and> footer v = [AddShippingInfo, Close])"
proof -
  have a: "selectedOrder detail_panel = Some example_order"
    by (simp add: detail_panel_def)
  have b: "selectedOrder (fst (acceptOrder accepting_server ''ORD-1'' (detail_panel, [])))
      = Some (example_order\<lparr>status := Accepted\<rparr>)"
    by (simp add: acceptOrder_def accepting_server_def post_try_def refetch_both_def
          fetchOrders_start_def fetchOrders_settle_def fetchOrderDetails_settle_def
          fetchOrderDetails_try_def Let_def split: sum.splits)
  show ?thesis
    using footer_by_status [of detail_panel example_order "\<lambda>d. NaN" "\<lambda>d. d" 0]
      footer_by_status [of "fst (acceptOrder accepting_server ''ORD-1'' (detail_panel, []))"
        "example_order\<lparr>status := Accepted\<rparr>" "\<lambda>d. NaN" "\<lambda>d. d" 0] a b
    by (simp add: example_order_def)
qed

text \<open>
  C2. \<^verbatim>\<open>submitShippingInfo\<close> sends nothing and sets the error notification when
  the courier name, the tracking number or the estimated delivery date is empty.
  When all three are present, the next request sent is the POST of the form,
  whatever the notes and proof images are.
\<close>

theorem submitShippingInfo_validation:
  "(courierName (shippingForm s) = [] \<or> trackingNumber (shippingForm s) = []
      \<or> estimatedDeliveryDate (shippingForm s) = []
    \<longrightarrow> submitShippingInfo srv orderId (s, sent) =
          (s\<lparr>ui := (ui s)\<lparr>errorNotification := Some ''Please fill in all required fields''\<rparr>\<rparr>, sent))
   \<and> (courierName (shippingForm s) \<noteq> [] \<and> trackingNumber (shippingForm s) \<noteq> []
      \<and> estimatedDeliveryDate (shippingForm s) \<noteq> []
    \<longrightarrow> (\<exists>rest. snd (submitShippingInfo srv orderId (s, sent)) =
          sent @ POST_shipping orderId (shipping_formData (shippingForm s)) # rest))"
proof (intro conjI impI)
  assume "courierName (shippingForm s) = [] \<or> trackingNumber (shippingForm s) = []
      \<or> estimatedDeliveryDate (shippingForm s) = []"
  then show "submitShippingInfo srv orderId (s, sent) =
          (s\<lparr>ui := (ui s)\<lparr>errorNotification := Some ''Please fill in all required fields''\<rparr>\<rparr>, sent)"
    by (simp add: submitShippingInfo_def Let_def)
next
  let ?req = "POST_shipping orderId (shipping_formData (shippingForm s))"
  assume ok: "courierName (shippingForm s) \<noteq> [] \<and> trackingNumber (shippingForm s) \<noteq> []
      \<and> estimatedDeliveryDate (shippingForm s) \<noteq> []"
  show "\<exists>rest. snd (submitShippingInfo srv orderId (s, sent)) = sent @ ?req # rest"
  proof (cases "post_try (post srv (sent @ [?req])) ''Failed to submit shipping info''")
    case (Inl m)
    with ok have "snd (submitShippingInfo srv orderId (s, sent)) = sent @ ?req # []"
      by (simp add: submitShippingInfo_def Let_def)
    then show ?thesis by blast
  next
    case (Inr u)
    with ok have "snd (submitShippingInfo srv orderId (s, sent)) =
        sent @ ?req # [GET_orders, GET_order orderId]"
      by (simp add: submitShippingInfo_def Let_def snd_refetch_both)
    then show ?thesis by blast
  qed
qed

theorem submitShippingInfo_validation_witness:
  "submitShippingInfo offline_server ''ORD-1'' (initial_panel, []) =
     (initial_panel\<lparr>ui := (ui initial_panel)\<lparr>errorNotification :=
        Some ''Please fill in all required fields''\<rparr>\<rparr>, [])
   \<and> (\<exists>rest. snd (submitShippingInfo offline_server ''ORD-1''
          (initial_panel\<lparr>shippingForm := filled_form\<rparr>, [])) =
        POST_shipping ''ORD-1''
          [(''courierName'', Text ''dhl''), (''trackingNumber'', Text ''KN2025-891234''),
           (''estimatedDeliveryDate'', Text ''2024-01-04''), (''notes'', Text [])] # rest)"
  using submitShippingInfo_validation [of initial_panel offline_server "''ORD-1''" "[]"]
    submitShippingInfo_validation [of "initial_panel\<lparr>shippingForm := filled_form\<rparr>"
      offline_server "''ORD-1''" "[]"]
  by (simp add: initial_panel_def emptyShippingForm_def filled_form_def shipping_formData_def)

text \<open>
  C3. \<^verbatim>\<open>sendMessage\<close> sends nothing and sets the error notification when the
  message input is empty after trimming; otherwise the next request sent is the
  POST of the message as typed.
\<close>

theorem sendMessage_validation:
  "(trim (messageInput s) = []
    \<longrightarrow> sendMessage srv orderId (s, sent) =
          (s\<lparr>ui := (ui s)\<lparr>errorNotification := Some ''Message cannot be empty''\<rparr>\<rparr>, sent))
   \<and> (trim (messageInput s) \<noteq> []
    \<longrightarrow> (\<exists>rest. snd (sendMessage srv orderId (s, sent)) =
          sent @ POST_message orderId (messageInput s) # rest))"
proof (intro conjI impI)
  assume "trim (messageInput s) = []"
  then show "sendMessage srv orderId (s, sent) =
          (s\<lparr>ui := (ui s)\<lparr>errorNotification := Some ''Message cannot be empty''\<rparr>\<rparr>, sent)"
    by (simp add: sendMessage_def Let_def)
next
  let ?req = "POST_message orderId (messageInput s)"
  assume ok: "trim (messageInput s) \<noteq> []"
  show "\<exists>rest. snd (sendMessage srv orderId (s, sent)) = sent @ ?req # rest"
  proof (cases "post_try (post srv (sent @ [?req])) ''Failed to send message''")
    case (Inl m)
    with ok have "snd (sendMessage srv orderId (s, sent)) = sent @ ?req # []"
      by (simp add: sendMessage_def Let_def)
    then show ?thesis by blast
  next
    case (Inr u)
    with ok have "snd (sendMessage srv orderId (s, sent)) = sent @ ?req # [GET_order orderId]"
      by (simp add: sendMessage_def Let_def snd_fetchOrderDetails)
    then show ?thesis by blast
  qed
qed

theorem sendMessage_validation_witness:
  "sendMessage offline_server ''ORD-1'' (initial_panel\<lparr>messageInput := [CHR '' '', CHR 0x09, CHR 0x0A]\<rparr>, []) =
     (initial_panel\<lparr>messageInput := [CHR '' '', CHR 0x09, CHR 0x0A],
                    ui := (ui initial_panel)\<lparr>errorNotification := Some ''Message cannot be empty''\<rparr>\<rparr>, [])
   \<and> (\<exists>rest. snd (sendMessage offline_server ''ORD-1'' (initial_panel\<lparr>messageInput := '' hi ''\<rparr>, [])) =
        POST_message ''ORD-1'' '' hi '' # rest)"
  using sendMessage_validation [of "initial_panel\<lparr>messageInput := [CHR '' '', CHR 0x09, CHR 0x0A]\<rparr>"
      offline_server "''ORD-1''" "[]"]
    sendMessage_validation [of "initial_panel\<lparr>messageInput := '' hi ''\<rparr>" offline_server "''ORD-1''" "[]"]
  by (simp add: trim_def is_space_simps initial_panel_def)

text \<open>
  C4, as the code has it. A failure of the order-list fetch sets the error
  notification to the message of the failure, or to the fallback text when the
  message is empty, and sets the order list to the empty list. A failure of the
  order-detail fetch sets the error notification to one fixed text and changes
  nothing else: the order list stays as it was.
\<close>

theorem fetch_failure:
  "(fetchOrders_try (list_orders srv (sent @ [GET_orders])) = Inl m
    \<longrightarrow> fetchOrders srv (s, sent) =
          (s\<lparr>ui := (ui s)\<lparr>loading := False,
                errorNotification := Some (if m = [] then ''Failed to load orders. Please try again.'' else m)\<rparr>,
             orders := Some []\<rparr>,
           sent @ [GET_orders]))
   \<and> (fetchOrderDetails_try (order_detail srv (sent @ [GET_order orderId])) = Inl m
    \<longrightarrow> fetchOrderDetails srv orderId (s, sent) =
          (s\<lparr>ui := (ui s)\<lparr>errorNotification := Some ''Failed to load order details''\<rparr>\<rparr>,
           sent @ [GET_order orderId]))"
  by (simp add: fetchOrders_def fetchOrderDetails_def Let_def message_or_def)

theorem fetch_failure_witness:
  "fetchOrders offline_server (loaded_panel, []) =
     (loaded_panel\<lparr>ui := (ui loaded_panel)\<lparr>loading := False, errorNotification := Some ''offline''\<rparr>,
        orders := Some []\<rparr>, [GET_orders])
   \<and> fetchOrderDetails offline_server ''ORD-1'' (loaded_panel, []) =
     (loaded_panel\<lparr>ui := (ui loaded_panel)\<lparr>errorNotification := Some ''Failed to load order details''\<rparr>\<rparr>,
      [GET_order ''ORD-1''])"
  using fetch_failure [of offline_server "[]" "''offline''" loaded_panel "''ORD-1''"]
  by (simp add: offline_server_def fetchOrders_try_def fetchOrderDetails_try_def)

text \<open>
  C4 as stated fails for the order-detail fetch: with one order in the list and
  the backend unreachable, the list still holds that order afterwards, and the
  notification is not the message of the failure.
\<close>

theorem fetchOrderDetails_failure_counterexample:
  "fetchOrderDetails_try (order_detail offline_server [GET_order ''ORD-1'']) = Inl ''offline''
   \<and> orders (fst (fetchOrderDetails offline_server ''ORD-1'' (loaded_panel, []))) = Some [example_order]
   \<and> orders (fst (fetchOrderDetails offline_server ''ORD-1'' (loaded_panel, []))) \<noteq> Some []
   \<and> errorNotification (ui (fst (fetchOrderDetails offline_server ''ORD-1'' (loaded_panel, []))))
       = Some ''Failed to load order details''
   \<and> errorNotification (ui (fst (fetchOrderDetails offline_server ''ORD-1'' (loaded_panel, []))))
       \<noteq> Some ''offline''"
  by (simp add: fetchOrderDetails_def fetchOrderDetails_try_def offline_server_def Let_def
        loaded_panel_def)

text \<open>
  C5. The boundaries of \<^verbatim>\<open>formatTime\<close>, for a time stamp that parses, by the
  whole seconds between it and the clock: 59 gives "just now", 60 "1m ago", 3599
  "59m ago", 3600 "1h ago", 86400 "yesterday", six days "6d ago", and seven days
  the date in the locale's format.
\<close>

theorem formatTime_boundaries:
  assumes "dateString \<noteq> []" and "getTime dateString = Num t" and "secs = (now - t) div 1000"
  shows "(secs = 59 \<longrightarrow> formatTime getTime toLocaleDateString now dateString = ''just now'')
       \<and> (secs = 60 \<longrightarrow> formatTime getTime toLocaleDateString now dateString = ''1m ago'')
       \<and> (secs = 3599 \<longrightarrow> formatTime getTime toLocaleDateString now dateString = ''59m ago'')
       \<and> (secs = 3600 \<longrightarrow> formatTime getTime toLocaleDateString now dateString = ''1h ago'')
       \<and> (secs = 86400 \<longrightarrow> formatTime getTime toLocaleDateString now dateString = ''yesterday'')
       \<and> (secs = 6 * 86400 \<longrightarrow> formatTime getTime toLocaleDateString now dateString = ''6d ago'')
       \<and> (secs = 7 * 86400 \<longrightarrow> formatTime getTime toLocaleDateString now dateString = toLocaleDateString dateString)"
  using assms by (simp add: formatTime_def Let_def show_nat.simps digit_char_def)

theorem formatTime_boundaries_witness:
  "formatTime (\<lambda>d. Num 0) (\<lambda>d. ''01/01/1970'') 59000 ''1970-01-01'' = ''just now''
   \<and> formatTime (\<lambda>d. Num 0) (\<lambda>d. ''01/01/1970'') 60000 ''1970-01-01'' = ''1m ago''
   \<and> formatTime (\<lambda>d. Num 0) (\<lambda>d. ''01/01/1970'') 3599000 ''1970-01-01'' = ''59m ago''
   \<and> formatTime (\<lambda>d. Num 0) (\<lambda>d. ''01/01/1970'') 3600000 ''1970-01-01'' = ''1h ago''
   \<and> formatTime (\<lambda>d. Num 0) (\<lambda>d. ''01/01/1970'') 86400000 ''1970-01-01'' = ''yesterday''
   \<and> formatTime (\<lambda>d. Num 0) (\<lambda>d. ''01/01/1970'') 518400000 ''1970-01-01'' = ''6d ago''
   \<and> formatTime (\<lambda>d. Num 0) (\<lambda>d. ''01/01/1970'') 604800000 ''1970-01-01'' = ''01/01/1970''"
proof -
  have d: "''1970-01-01'' \<noteq> []" and g: "(\<lambda>d. Num 0) ''1970-01-01'' = Num 0"
    by simp_all
  show ?thesis
    using formatTime_boundaries [OF d g refl, where now = 59000 and toLocaleDateString = "\<lambda>d. ''01/01/1970''"]
      formatTime_boundaries [OF d g refl, where now = 60000 and toLocaleDateString = "\<lambda>d. ''01/01/1970''"]
      formatTime_boundaries [OF d g refl, where now = 3599000 and toLocaleDateString = "\<lambda>d. ''01/01/1970''"]
      formatTime_boundaries [OF d g refl, where now = 3600000 and toLocaleDateString = "\<lambda>d. ''01/01/1970''"]
      formatTime_boundaries [OF d g refl, where now = 86400000 and toLocaleDateString = "\<lambda>d. ''01/01/1970''"]
      formatTime_boundaries [OF d g refl, where now = 518400000 and toLocaleDateString = "\<lambda>d. ''01/01/1970''"]
      formatTime_boundaries [OF d g refl, where now = 604800000 and toLocaleDateString = "\<lambda>d. ''01/01/1970''"]
    by simp
qed

text \<open>
  C6. The status filter \<open>all\<close> passes every order, and the empty search query
  passes every order: with \<open>all\<close> the predicate of the filter step is the search
  alone, with the empty query it is the status filter alone, and with both the
  filter step gives the list back. The visible list then holds the same orders,
  in the order the sort gives them.
\<close>

theorem filter_identities:
  "matchesFilter ''all'' order
   \<and> matchesSearch [] order
   \<and> filter (matches ''all'' q) xs = filter (matchesSearch q) xs
   \<and> filter (matches fs []) xs = filter (matchesFilter fs) xs
   \<and> filter (matches ''all'' []) xs = xs
   \<and> mset (filteredOrders getTime (Some xs) ''all'' [] sb) = mset xs"
  by (simp add: matches_all matches_no_query matchesSearch_no_query matchesFilter_def
        filteredOrders_def mset_Array_sort)

theorem filter_identities_witness:
  "filter (matches ''all'' []) [example_order, third_order, second_order]
     = [example_order, third_order, second_order]
   \<and> filter (matches ''pending'' []) [example_order, third_order, second_order]
     = [example_order, third_order]
   \<and> mset (filteredOrders sample_getTime (Some [example_order, third_order, second_order])
        ''all'' [] ''newest'') = mset [third_order, example_order, second_order]"
  using filter_identities [of example_order "[]" "[example_order, third_order, second_order]"
      "''pending''" sample_getTime "''newest''"]
  by (simp add: matches_all matches_no_query matchesSearch_no_query matchesFilter_def
        sample_orders_fields)

text \<open>
  C7, as the code has it. When every order that passes the filter has a creation
  time stamp that is a date, the orders of one time stamp come out of the
  pipeline under \<open>newest\<close> and \<open>oldest\<close> in the order they have in the filtered
  list; when every such order has an amount that is a number, so do the orders
  of one amount under \<open>amount-high\<close> and \<open>amount-low\<close>; under any other sort key
  the filtered list comes out as it is. On the store, the array the pipeline
  returns holds the value of the function \<open>filteredOrders\<close> at the contents
  of \<^verbatim>\<open>orders\<close> and the three controls; every array that was there before, the
  one of \<^verbatim>\<open>orders\<close> among them, is unchanged; and evaluating the pipeline again
  gives an array with the same contents.
\<close>

theorem pipeline_stable:
  "((sb = ''newest'' \<or> sb = ''oldest'')
      \<and> (\<forall>order\<in>set (filter (matches fs q) xs). getTime (createdAt order) \<noteq> NaN) \<longrightarrow>
      filter (\<lambda>order. getTime (createdAt order) = k) (filteredOrders getTime (Some xs) fs q sb)
        = filter (\<lambda>order. getTime (createdAt order) = k) (filter (matches fs q) xs))
   \<and> ((sb = ''amount-high'' \<or> sb = ''amount-low'')
      \<and> (\<forall>order\<in>set (filter (matches fs q) xs). amount order \<noteq> NaN) \<longrightarrow>
      filter (\<lambda>order. amount order = n) (filteredOrders getTime (Some xs) fs q sb)
        = filter (\<lambda>order. amount order = n) (filter (matches fs q) xs))
   \<and> (sb \<noteq> ''newest'' \<and> sb \<noteq> ''oldest'' \<and> sb \<noteq> ''amount-high'' \<and> sb \<noteq> ''amount-low'' \<longrightarrow>
      filteredOrders getTime (Some xs) fs q sb = filter (matches fs q) xs)
   \<and> (a < length h \<longrightarrow>
        (case filteredOrders_store getTime (Some a) fs q sb h of
           (r, h1) \<Rightarrow>
             h1 ! r = filteredOrders getTime (Some (h ! a)) fs q sb
             \<and> take (length h) h1 = h
             \<and> (case filteredOrders_store getTime (Some a) fs q sb h1 of
                  (r2, h2) \<Rightarrow> h2 ! r2 = h1 ! r)))"
proof (intro conjI impI)
  assume "(sb = ''newest'' \<or> sb = ''oldest'')
      \<and> (\<forall>order\<in>set (filter (matches fs q) xs). getTime (createdAt order) \<noteq> NaN)"
  then show "filter (\<lambda>order. getTime (createdAt order) = k) (filteredOrders getTime (Some xs) fs q sb)
        = filter (\<lambda>order. getTime (createdAt order) = k) (filter (matches fs q) xs)"
    unfolding filteredOrders_def option.case
    by (intro stable_by_time) simp_all
next
  assume "(sb = ''amount-high'' \<or> sb = ''amount-low'')
      \<and> (\<forall>order\<in>set (filter (matches fs q) xs). amount order \<noteq> NaN)"
  then show "filter (\<lambda>order. amount order = n) (filteredOrders getTime (Some xs) fs q sb)
        = filter (\<lambda>order. amount order = n) (filter (matches fs q) xs)"
    unfolding filteredOrders_def option.case
    by (intro stable_by_amount) simp_all
next
  assume "sb \<noteq> ''newest'' \<and> sb \<noteq> ''oldest'' \<and> sb \<noteq> ''amount-high'' \<and> sb \<noteq> ''amount-low''"
  then show "filteredOrders getTime (Some xs) fs q sb = filter (matches fs q) xs"
    unfolding filteredOrders_def option.case
    by (intro Array_sort_equal compare_other) simp_all
next
  assume "a < length h"
  then show "case filteredOrders_store getTime (Some a) fs q sb h of
           (r, h1) \<Rightarrow>
             h1 ! r = filteredOrders getTime (Some (h ! a)) fs q sb
             \<and> take (length h) h1 = h
             \<and> (case filteredOrders_store getTime (Some a) fs q sb h1 of
                  (r2, h2) \<Rightarrow> h2 ! r2 = h1 ! r)"
    by (simp add: filteredOrders_store_def Array_filter_def Array_sort_in_place_def
          filteredOrders_def nth_append)
qed

theorem pipeline_stable_witness:
  "filter (\<lambda>order. sample_getTime (createdAt order) = Num 1704067200000)
     (filteredOrders sample_getTime (Some [example_order, third_order, second_order]) ''all'' [] ''newest'')
     = [example_order, second_order]
   \<and> filter (\<lambda>order. amount order = Num 1500)
     (filteredOrders sample_getTime (Some [third_order, example_order, second_order]) ''all'' [] ''amount-low'')
     = [example_order, second_order]
   \<and> filteredOrders sample_getTime (Some [example_order, third_order, second_order]) ''all'' []
       ''unsorted''
     = [example_order, third_order, second_order]
   \<and> snd (filteredOrders_store sample_getTime (Some 0) ''all'' [] ''newest''
        [[example_order, third_order, second_order]])
     = [[example_order, third_order, second_order], [third_order, example_order, second_order]]"
proof -
  have h: "(0::nat) < length [[example_order, third_order, second_order]]"
    by simp
  have s: "filteredOrders_store sample_getTime (Some 0) ''all'' [] ''newest''
        [[example_order, third_order, second_order]]
      = (1, [[example_order, third_order, second_order],
             filteredOrders sample_getTime (Some [example_order, third_order, second_order])
               ''all'' [] ''newest''])"
    by (simp add: filteredOrders_store_def Array_filter_def Array_sort_in_place_def
          filteredOrders_Some)
  show ?thesis
    using pipeline_stable [of "''newest''" "''all''" "[]"
        "[example_order, third_order, second_order]" sample_getTime "Num 1704067200000"
        "Num 1500" 0 "[[example_order, third_order, second_order]]"]
      pipeline_stable [of "''amount-low''" "''all''" "[]"
        "[third_order, example_order, second_order]" sample_getTime "Num 1704067200000"
        "Num 1500" 0 "[[example_order, third_order, second_order]]"]
      pipeline_stable [of "''unsorted''" "''all''" "[]"
        "[example_order, third_order, second_order]" sample_getTime "Num 1704067200000"
        "Num 1500" 0 "[[example_order, third_order, second_order]]"]
      h
    by (simp add: s sample_sorted matches_all matchesSearch_no_query sample_orders_fields)
qed

text \<open>
  C7 as stated fails on a list with one creation time stamp that is no date:
  the comparison with it is \<open>NaN\<close>, read as 0, and the binary search then puts
  ORD-6 before ORD-5, two orders of the same time stamp that the list has the
  other way round.
\<close>

theorem pipeline_stable_counterexample:
  "map order_id
     (filter (\<lambda>order. sample_getTime (createdAt order) = Num 1704153600000)
        (filter (matches ''all'' []) mixed_orders))
     = [''ORD-1'', ''ORD-2'', ''ORD-3'', ''ORD-5'', ''ORD-6'']
   \<and> map order_id
     (filter (\<lambda>order. sample_getTime (createdAt order) = Num 1704153600000)
        (filteredOrders sample_getTime (Some mixed_orders) ''all'' [] ''newest''))
     = [''ORD-1'', ''ORD-2'', ''ORD-3'', ''ORD-6'', ''ORD-5'']
   \<and> filter (\<lambda>order. sample_getTime (createdAt order) = Num 1704153600000)
        (filteredOrders sample_getTime (Some mixed_orders) ''all'' [] ''newest'')
     \<noteq> filter (\<lambda>order. sample_getTime (createdAt order) = Num 1704153600000)
        (filter (matches ''all'' []) mixed_orders)"
  by code_simp

text \<open>
  C8. \<^verbatim>\<open>formatCurrency\<close> gives "KES 0" for zero and for \<open>NaN\<close>. For a positive
  amount it gives "KES " and then the amount rounded to a whole number, a half
  upwards, in decimal digits with commas between groups of three: the digits
  are those of the rounded amount, no other character than a digit or a comma
  follows "KES ", and taking the commas out gives the digits back. It gives
  "KES 1,234,567" for 1234567, "KES 1,235" for 1234.5 and "KES 0" for 0.4.
\<close>

theorem formatCurrency_grouped:
  "formatCurrency (Num 0) = ''KES 0''
   \<and> formatCurrency NaN = ''KES 0''
   \<and> (0 < x \<longrightarrow>
        formatCurrency (Num x) = ''KES '' @ grouped (show_nat (round_half_expand x))
        \<and> of_nat (round_half_expand x) \<le> x + 1 / 2
        \<and> x + 1 / 2 < of_nat (round_half_expand x) + 1
        \<and> read_nat (show_nat (round_half_expand x)) = round_half_expand x
        \<and> set (show_nat (round_half_expand x)) \<subseteq> set ''0123456789''
        \<and> filter (\<lambda>c. c \<noteq> CHR '','') (grouped (show_nat (round_half_expand x)))
            = show_nat (round_half_expand x))
   \<and> (0 < i \<longrightarrow> formatCurrency (Num (of_int i)) = ''KES '' @ grouped (show_nat (nat i)))
   \<and> formatCurrency (Num 1234567) = ''KES 1,234,567''
   \<and> formatCurrency (Num (2469 / 2)) = ''KES 1,235''
   \<and> formatCurrency (Num (2 / 5)) = ''KES 0''"
proof (intro conjI impI)
  show "formatCurrency (Num 0) = ''KES 0''" and "formatCurrency NaN = ''KES 0''"
    by (simp_all add: formatCurrency_def)
next
  assume x: "0 < x"
  then show "formatCurrency (Num x) = ''KES '' @ grouped (show_nat (round_half_expand x))"
    by (simp add: formatCurrency_def)
  show "of_nat (round_half_expand x) \<le> x + 1 / 2"
    and "x + 1 / 2 < of_nat (round_half_expand x) + 1"
    using round_half_expand_bracket [of x] x by simp_all
  show "read_nat (show_nat (round_half_expand x)) = round_half_expand x"
    by (rule read_nat_show_nat)
  show "set (show_nat (round_half_expand x)) \<subseteq> set ''0123456789''"
    by (rule show_nat_digits)
  show "filter (\<lambda>c. c \<noteq> CHR '','') (grouped (show_nat (round_half_expand x)))
            = show_nat (round_half_expand x)"
    by (rule grouped_digits)
next
  assume "0 < i"
  then show "formatCurrency (Num (of_int i)) = ''KES '' @ grouped (show_nat (nat i))"
    by (simp add: formatCurrency_def round_half_expand_whole)
next
  show "formatCurrency (Num 1234567) = ''KES 1,234,567''"
    by (simp add: formatCurrency_def round_half_expand_samples grouped_def show_nat.simps
          digit_char_def)
  show "formatCurrency (Num (2469 / 2)) = ''KES 1,235''"
    by (simp add: formatCurrency_def round_half_expand_samples grouped_def show_nat.simps
          digit_char_def)
  show "formatCurrency (Num (2 / 5)) = ''KES 0''"
    by (simp add: formatCurrency_def round_half_expand_samples grouped_def show_nat.simps
          digit_char_def)
qed

theorem formatCurrency_grouped_witness:
  "formatCurrency (Num (2469 / 2)) = ''KES 1,235''
   \<and> (of_nat 1235 :: rat) \<le> 2469 / 2 + 1 / 2
   \<and> (2469 / 2 + 1 / 2 :: rat) < of_nat 1235 + 1
   \<and> read_nat ''1235'' = 1235
   \<and> filter (\<lambda>c. c \<noteq> CHR '','') ''1,235'' = ''1235''
   \<and> formatCurrency (Num (of_int 1500)) = ''KES 1,500''"
  using formatCurrency_grouped [of "2469 / 2" 1500]
  by (simp add: round_half_expand_samples grouped_def show_nat.simps digit_char_def)

text \<open>
  C9. After a successful reject the handler goes on as the order-list fetch does,
  from the state with the detail view closed and the success notification set.
  The requests sent are the POST and the GET of the list, and no GET of the
  order. The selected order is not changed, and the order list afterwards is
  what the re-fetch gave.
\<close>

theorem rejectOrder_success:
  assumes "post srv (sent @ [POST_reject orderId]) = Response True body"
    and "w = rejectOrder srv orderId (s, sent)"
  shows "w = fetchOrders srv
              (s\<lparr>ui := (ui s)\<lparr>successNotification := Some ''Order rejected'',
                               orderDetailOpen := False\<rparr>\<rparr>,
               sent @ [POST_reject orderId])
       \<and> snd w = sent @ [POST_reject orderId, GET_orders]
       \<and> orderDetailOpen (ui (fst w)) = False
       \<and> successNotification (ui (fst w)) = Some ''Order rejected''
       \<and> selectedOrder (fst w) = selectedOrder s
       \<and> orders (fst w) =
           (case fetchOrders_try (list_orders srv (sent @ [POST_reject orderId, GET_orders])) of
              Inr xs \<Rightarrow> Some xs | Inl m \<Rightarrow> Some [])"
  using assms
  by (simp add: rejectOrder_def post_try_def fetchOrders_def Let_def split: sum.splits)

theorem rejectOrder_success_witness:
  "post rejecting_server [POST_reject ''ORD-1''] = Response True (Json ())
   \<and> snd (rejectOrder rejecting_server ''ORD-1'' (detail_panel, [])) = [POST_reject ''ORD-1'', GET_orders]
   \<and> orderDetailOpen (ui (fst (rejectOrder rejecting_server ''ORD-1'' (detail_panel, [])))) = False
   \<and> successNotification (ui (fst (rejectOrder rejecting_server ''ORD-1'' (detail_panel, []))))
       = Some ''Order rejected''
   \<and> selectedOrder (fst (rejectOrder rejecting_server ''ORD-1'' (detail_panel, []))) = Some example_order
   \<and> orders (fst (rejectOrder rejecting_server ''ORD-1'' (detail_panel, [])))
       = Some [example_order\<lparr>status := Cancelled\<rparr>]"
proof -
  have p: "post rejecting_server ([] @ [POST_reject ''ORD-1'']) = Response True (Json ())"
    by (simp add: rejecting_server_def)
  show ?thesis
    using p rejectOrder_success [OF p refl, of detail_panel, THEN conjunct2]
    by (simp add: detail_panel_def rejecting_server_def fetchOrders_try_def)
qed

text \<open>
  C10. \<^verbatim>\<open>formatTime\<close> gives "unknown" for the empty string, so the message block
  of an order whose message has no time stamp shows "unknown". No branch of
  \<^verbatim>\<open>formatTime\<close> throws: for a string that is no date every comparison is false
  and the result is what the locale formatting gives for it.
\<close>

theorem formatTime_missing_timestamp:
  "formatTime getTime toLocaleDateString now [] = ''unknown''
   \<and> (buyerMessage order = Some m \<and> m \<noteq> []
        \<and> (messageCreatedAt order = None \<or> messageCreatedAt order = Some [])
      \<longrightarrow> buyerMessageBlock getTime toLocaleDateString now order = Some (m, ''unknown''))
   \<and> (dateString \<noteq> [] \<and> getTime dateString = NaN
      \<longrightarrow> formatTime getTime toLocaleDateString now dateString = toLocaleDateString dateString)"
  by (auto simp: formatTime_def buyerMessageBlock_def)

theorem formatTime_missing_timestamp_witness:
  "buyerMessageBlock (\<lambda>d. NaN) (\<lambda>d. ''Invalid Date'') 0 example_order
     = Some (''Please deliver in the morning'', ''unknown'')
   \<and> formatTime (\<lambda>d. NaN) (\<lambda>d. ''Invalid Date'') 0 ''soon'' = ''Invalid Date''"
  using formatTime_missing_timestamp [of "\<lambda>d. NaN" "\<lambda>d. ''Invalid Date''" 0 example_order
      "''Please deliver in the morning''" "''soon''"]
  by (simp add: example_order_def)

end
